theory Spec2Isabelle
  imports Complex_Main "HOL-Library.Log_Nat" "HOL-Library.Word" "HOL-Library.Multiset"
begin

section \<open>Double-precision arithmetic\<close>

text \<open>
  The generator computes on C++ \<open>double\<close>. Every finite double is a rational number, and
  each arithmetic operator returns the exact result rounded to the nearest number with a
  53-bit significand, ties to the even significand (IEEE 754 binary64,
  round-to-nearest-even, each operator rounded on its own: no fused multiply-add). A
  \<open>double\<close> is therefore modelled as a \<open>rat\<close> and each operator as the exact operation
  followed by \<open>double_round\<close>. The exponent range is not bounded: overflow to an
  infinity and gradual underflow are outside the model. A quotient by zero is infinite or
  not a number; the two functions that divide handle it where they divide.
\<close>

type_synonym double = rat

text \<open>\<open>pow2 e\<close> is \<open>2^e\<close> for an integer exponent.\<close>

definition pow2 :: "int \<Rightarrow> rat" where
  "pow2 e = (if 0 \<le> e then of_int (2 ^ nat e) else 1 / of_int (2 ^ nat (- e)))"

text \<open>\<open>binade x\<close> is the exponent \<open>e\<close> with \<open>2^e \<le> |x| < 2^(e+1)\<close>, for \<open>x \<noteq> 0\<close>.\<close>

definition binade :: "rat \<Rightarrow> int" where
  "binade x = (let (p, q) = quotient_of \<bar>x\<bar>; d = bitlen p - bitlen q
               in if pow2 d \<le> \<bar>x\<bar> then d else d - 1)"

definition round_to_even :: "rat \<Rightarrow> int" where
  "round_to_even y = (let f = \<lfloor>y\<rfloor>; d = y - of_int f
                      in if d < 1 / 2 then f
                         else if 1 / 2 < d then f + 1
                         else if even f then f else f + 1)"

definition double_round :: "rat \<Rightarrow> double" where
  "double_round x = (if x = 0 then 0
                     else let ulp = pow2 (binade x - 52)
                          in of_int (round_to_even (x / ulp)) * ulp)"

definition double_add :: "double \<Rightarrow> double \<Rightarrow> double" where
  "double_add x y = double_round (x + y)"

definition double_sub :: "double \<Rightarrow> double \<Rightarrow> double" where
  "double_sub x y = double_round (x - y)"

definition double_mul :: "double \<Rightarrow> double \<Rightarrow> double" where
  "double_mul x y = double_round (x * y)"

text \<open>Only used with a divisor that is not zero.\<close>

definition double_div :: "double \<Rightarrow> double \<Rightarrow> double" where
  "double_div x y = double_round (x / y)"

datatype error = length_error | bad_array_new_length | UndefinedBehaviour

text \<open>Conversion of an integer to \<open>double\<close>; exact for every 32-bit integer.\<close>

definition int_to_double :: "int \<Rightarrow> double" where
  "int_to_double k = double_round (of_int k)"

text \<open>
  \<open>static_cast<int>\<close> of a double, and the implicit conversion of a double to \<open>int\<close>:
  the fractional part is discarded, and the behaviour is undefined when the truncated
  value is not an \<open>int\<close> (32 bits).
\<close>

definition double_to_int :: "double \<Rightarrow> error + int" where
  "double_to_int x = (let t = (if 0 \<le> x then \<lfloor>x\<rfloor> else \<lceil>x\<rceil>)
                      in if - (2 ^ 31) \<le> t \<and> t < 2 ^ 31 then Inr t
                         else Inl UndefinedBehaviour)"

section \<open>The complex-plane primitive\<close>

datatype Complex = MkComplex (r: double) (i: double)

definition Complex_mul :: "Complex \<Rightarrow> Complex \<Rightarrow> Complex" where
  "Complex_mul a b =
     MkComplex (double_sub (double_mul (r a) (r b)) (double_mul (i a) (i b)))
               (double_add (double_mul (r a) (i b)) (double_mul (i a) (r b)))"

definition Complex_add :: "Complex \<Rightarrow> Complex \<Rightarrow> Complex" where
  "Complex_add a b = MkComplex (double_add (r a) (r b)) (double_add (i a) (i b))"

definition sqmagnitude :: "Complex \<Rightarrow> double" where
  "sqmagnitude a = double_add (double_mul (r a) (r a)) (double_mul (i a) (i a))"

section \<open>The trajectory generator\<close>

text \<open>
  The \<open>while\<close> loop of \<open>buddhabrotPoints\<close>, on its variables \<open>n\<close>, \<open>z\<close> and
  \<open>toReturn\<close>. It returns the final \<open>n\<close>, which counts the iterations executed, and the
  final \<open>toReturn\<close>.
\<close>

function buddhabrotPoints_loop ::
  "Complex \<Rightarrow> int \<Rightarrow> int \<Rightarrow> Complex \<Rightarrow> Complex list \<Rightarrow> int \<times> Complex list" where
  "buddhabrotPoints_loop c nIterations n z toReturn =
     (if n < nIterations \<and> sqmagnitude z \<le> 2
      then buddhabrotPoints_loop c nIterations (n + 1) (Complex_add (Complex_mul z z) c)
             (toReturn @ [Complex_add (Complex_mul z z) c])
      else (n, toReturn))"
  by pat_completeness auto
termination
  by (relation "measure (\<lambda>(c, nIterations, n, z, toReturn). nat (nIterations - n))") auto

declare buddhabrotPoints_loop.simps [simp del]

text \<open>
  \<open>toReturn.reserve(nIterations)\<close> converts the \<open>int\<close> to the unsigned \<open>size_type\<close>; a
  negative bound becomes a value above \<open>max_size()\<close>, for which \<open>reserve\<close> throws
  \<open>std::length_error\<close>. Exhaustion of memory by a large reservation is not modelled.
\<close>

definition buddhabrotPoints :: "Complex \<Rightarrow> int \<Rightarrow> error + Complex list" where
  "buddhabrotPoints c nIterations =
     (if nIterations < 0 then Inl length_error
      else case buddhabrotPoints_loop c nIterations 0 (MkComplex 0 0) [] of
             (n, toReturn) \<Rightarrow> if n = nIterations then Inr [] else Inr toReturn)"

text \<open>
  The iterates \<open>z\<^sub>0 = 0\<close>, \<open>z\<^sub>k\<^sub>+\<^sub>1 = z\<^sub>k * z\<^sub>k + c\<close> of the escape map, as the specification
  names them, in the arithmetic of the program.
\<close>

primrec iterate :: "Complex \<Rightarrow> nat \<Rightarrow> Complex" where
  "iterate c 0 = MkComplex 0 0"
| "iterate c (Suc k) = Complex_add (Complex_mul (iterate c k) (iterate c k)) c"

section \<open>The heatmap and the coordinate mapper\<close>

type_synonym HeatmapType = "32 word"

text \<open>A heatmap is the list of its rows, as the array of row pointers is.\<close>

type_synonym Heatmap = "HeatmapType list list"

text \<open>An array \<open>new\<close> with a negative length throws \<open>std::bad_array_new_length\<close>.\<close>

definition AllocHeatmap :: "int \<Rightarrow> int \<Rightarrow> error + Heatmap" where
  "AllocHeatmap width height =
     (if height < 0 then Inl bad_array_new_length
      else if 0 < height \<and> width < 0 then Inl bad_array_new_length
      else Inr (replicate (nat height) (replicate (nat width) 0)))"

text \<open>
  When \<open>maxR - minR\<close> is zero the quotient \<open>imageHeight / (maxR - minR)\<close> is infinite or
  not a number, so is its product with \<open>real - minR\<close>, and the conversion of such a
  value to \<open>int\<close> is undefined.
\<close>

definition rowFromReal :: "double \<Rightarrow> double \<Rightarrow> double \<Rightarrow> int \<Rightarrow> error + int" where
  "rowFromReal real' minR maxR imageHeight =
     (if double_sub maxR minR = 0 then Inl UndefinedBehaviour
      else double_to_int (double_mul (double_sub real' minR)
             (double_div (int_to_double imageHeight) (double_sub maxR minR))))"

definition colFromImaginary :: "double \<Rightarrow> double \<Rightarrow> double \<Rightarrow> int \<Rightarrow> error + int" where
  "colFromImaginary imag minI maxI imageWidth =
     (if double_sub maxI minI = 0 then Inl UndefinedBehaviour
      else double_to_int (double_mul (double_sub imag minI)
             (double_div (int_to_double imageWidth) (double_sub maxI minI))))"

section \<open>The heatmap accumulator and the channel driver\<close>

text \<open>
  \<open>++o_heatmap[row][col]\<close>: the counter wraps at \<open>2^32\<close>; an index outside the rows and
  columns that were allocated is an access outside the array, which is undefined.
\<close>

definition increment_cell :: "Heatmap \<Rightarrow> int \<Rightarrow> int \<Rightarrow> error + Heatmap" where
  "increment_cell h row col =
     (if 0 \<le> row \<and> row < int (length h) \<and> 0 \<le> col \<and> col < int (length (h ! nat row))
      then Inr (h[nat row := (h ! nat row)[nat col := h ! nat row ! nat col + 1]])
      else Inl UndefinedBehaviour)"

text \<open>
  The body of the loop over \<open>pointsList\<close> in \<open>GenerateHeatmap\<close>, on the heatmap and the
  global maximum.
\<close>

definition GenerateHeatmap_point ::
  "int \<Rightarrow> int \<Rightarrow> Complex \<Rightarrow> Complex \<Rightarrow> Complex \<Rightarrow> Heatmap \<times> HeatmapType
   \<Rightarrow> error + Heatmap \<times> HeatmapType" where
  "GenerateHeatmap_point imageWidth imageHeight minimum maximum point st =
     (case st of (o_heatmap, o_maxHeatmapValue) \<Rightarrow>
      if r point \<le> r maximum \<and> r point \<ge> r minimum
         \<and> i point \<le> i maximum \<and> i point \<ge> i minimum
      then case rowFromReal (r point) (r minimum) (r maximum) imageHeight of
             Inl e \<Rightarrow> Inl e
           | Inr row \<Rightarrow>
          (case colFromImaginary (i point) (i minimum) (i maximum) imageWidth of
             Inl e \<Rightarrow> Inl e
           | Inr col \<Rightarrow>
          (case increment_cell o_heatmap row col of
             Inl e \<Rightarrow> Inl e
           | Inr h \<Rightarrow>
               Inr (h, if h ! nat row ! nat col > o_maxHeatmapValue
                       then h ! nat row ! nat col else o_maxHeatmapValue)))
      else Inr (o_heatmap, o_maxHeatmapValue))"

text \<open>The loop over \<open>pointsList\<close>.\<close>

fun GenerateHeatmap_points ::
  "int \<Rightarrow> int \<Rightarrow> Complex \<Rightarrow> Complex \<Rightarrow> Complex list \<Rightarrow> Heatmap \<times> HeatmapType
   \<Rightarrow> error + Heatmap \<times> HeatmapType" where
  "GenerateHeatmap_points imageWidth imageHeight minimum maximum [] st = Inr st"
| "GenerateHeatmap_points imageWidth imageHeight minimum maximum (point # pointsList) st =
     (case GenerateHeatmap_point imageWidth imageHeight minimum maximum point st of
        Inl e \<Rightarrow> Inl e
      | Inr st' \<Rightarrow> GenerateHeatmap_points imageWidth imageHeight minimum maximum pointsList st')"

text \<open>
  The loop over \<open>sampleIdx\<close>. The generator is seeded from the clock, so the candidates
  it yields are an input of the model: \<open>rng k\<close> is the candidate drawn in the iteration
  with \<open>sampleIdx = k\<close>. The loop returns the final \<open>sampleIdx\<close>, the number of candidates
  drawn, beside the heatmap and the global maximum. The progress message is not modelled.
\<close>

function GenerateHeatmap_loop ::
  "int \<Rightarrow> int \<Rightarrow> Complex \<Rightarrow> Complex \<Rightarrow> int \<Rightarrow> int \<Rightarrow> (nat \<Rightarrow> Complex) \<Rightarrow> int
   \<Rightarrow> Heatmap \<times> HeatmapType \<Rightarrow> error + (Heatmap \<times> HeatmapType) \<times> int" where
  "GenerateHeatmap_loop imageWidth imageHeight minimum maximum nIterations nSamples rng
     sampleIdx st =
     (if sampleIdx < nSamples
      then case buddhabrotPoints (rng (nat sampleIdx)) nIterations of
             Inl e \<Rightarrow> Inl e
           | Inr pointsList \<Rightarrow>
          (case GenerateHeatmap_points imageWidth imageHeight minimum maximum pointsList st of
             Inl e \<Rightarrow> Inl e
           | Inr st' \<Rightarrow>
               GenerateHeatmap_loop imageWidth imageHeight minimum maximum nIterations nSamples
                 rng (sampleIdx + 1) st')
      else Inr (st, sampleIdx))"
  by pat_completeness auto
termination
  by (relation "measure (\<lambda>(imageWidth, imageHeight, minimum, maximum, nIterations, nSamples,
        rng, sampleIdx, st). nat (nSamples - sampleIdx))") auto

declare GenerateHeatmap_loop.simps [simp del]

text \<open>
  \<open>std::uniform_real_distribution(a, b)\<close> requires \<open>a \<le> b\<close>; constructing it on a window
  of negative span is undefined.
\<close>

definition GenerateHeatmap ::
  "Heatmap \<Rightarrow> int \<Rightarrow> int \<Rightarrow> Complex \<Rightarrow> Complex \<Rightarrow> int \<Rightarrow> int \<Rightarrow> HeatmapType
   \<Rightarrow> (nat \<Rightarrow> Complex) \<Rightarrow> error + (Heatmap \<times> HeatmapType) \<times> int" where
  "GenerateHeatmap o_heatmap imageWidth imageHeight minimum maximum nIterations nSamples
     o_maxHeatmapValue rng =
     (if r maximum < r minimum \<or> i maximum < i minimum then Inl UndefinedBehaviour
      else GenerateHeatmap_loop imageWidth imageHeight minimum maximum nIterations nSamples
             rng 0 (o_heatmap, o_maxHeatmapValue))"

section \<open>The normalizer\<close>

text \<open>
  With \<open>maxHeatmapValue = 0\<close> the scale is infinite or not a number, so is the product,
  and its conversion to \<open>int\<close> is undefined.
\<close>

definition colorFromHeatmap :: "HeatmapType \<Rightarrow> HeatmapType \<Rightarrow> int \<Rightarrow> error + int" where
  "colorFromHeatmap inputValue maxHeatmapValue maxColor =
     (if maxHeatmapValue = 0 then Inl UndefinedBehaviour
      else double_to_int (double_mul (int_to_double (uint inputValue))
             (double_div (int_to_double maxColor) (int_to_double (uint maxHeatmapValue)))))"

section \<open>The entry point\<close>

text \<open>
  The constants of \<open>main\<close> are gathered in a record, so that the passes of \<open>main\<close> can
  be run on a small image as well; \<open>main_constants\<close> holds the values of the source.
\<close>

record Config =
  MINIMUM :: Complex
  MAXIMUM :: Complex
  IMAGE_HEIGHT :: int
  IMAGE_WIDTH :: int
  RED_ITERS :: int
  BLUE_ITERS :: int
  GREEN_ITERS :: int
  SAMPLE_COUNT :: int

definition main_constants :: Config where
  "main_constants =
     \<lparr>MINIMUM = MkComplex (- 2) (- 2), MAXIMUM = MkComplex 1 2,
      IMAGE_HEIGHT = 7000, IMAGE_WIDTH = 7000,
      RED_ITERS = 5, BLUE_ITERS = 500000, GREEN_ITERS = 500,
      SAMPLE_COUNT = 7000 * 7000 * 350\<rparr>"

text \<open>
  The allocation of the three heatmaps and the three channel passes, which share
  \<open>maxHeatmapValue\<close>; each pass has a generator of its own.
\<close>

definition main_generate ::
  "Config \<Rightarrow> (nat \<Rightarrow> Complex) \<Rightarrow> (nat \<Rightarrow> Complex) \<Rightarrow> (nat \<Rightarrow> Complex)
   \<Rightarrow> error + Heatmap \<times> Heatmap \<times> Heatmap \<times> HeatmapType" where
  "main_generate k rngRed rngGreen rngBlue =
     (case AllocHeatmap (IMAGE_WIDTH k) (IMAGE_HEIGHT k) of Inl e \<Rightarrow> Inl e | Inr red0 \<Rightarrow>
     (case AllocHeatmap (IMAGE_WIDTH k) (IMAGE_HEIGHT k) of Inl e \<Rightarrow> Inl e | Inr green0 \<Rightarrow>
     (case AllocHeatmap (IMAGE_WIDTH k) (IMAGE_HEIGHT k) of Inl e \<Rightarrow> Inl e | Inr blue0 \<Rightarrow>
     (case GenerateHeatmap red0 (IMAGE_WIDTH k) (IMAGE_HEIGHT k) (MINIMUM k) (MAXIMUM k)
             (RED_ITERS k) (SAMPLE_COUNT k) 0 rngRed of
        Inl e \<Rightarrow> Inl e
      | Inr ((red, max1), drawn1) \<Rightarrow>
     (case GenerateHeatmap green0 (IMAGE_WIDTH k) (IMAGE_HEIGHT k) (MINIMUM k) (MAXIMUM k)
             (GREEN_ITERS k) (SAMPLE_COUNT k) max1 rngGreen of
        Inl e \<Rightarrow> Inl e
      | Inr ((green, max2), drawn2) \<Rightarrow>
     (case GenerateHeatmap blue0 (IMAGE_WIDTH k) (IMAGE_HEIGHT k) (MINIMUM k) (MAXIMUM k)
             (BLUE_ITERS k) (SAMPLE_COUNT k) max2 rngBlue of
        Inl e \<Rightarrow> Inl e
      | Inr ((blue, max3), drawn3) \<Rightarrow> Inr (red, green, blue, max3)))))))"

text \<open>
  \<open>h[row][col] = colorFromHeatmap(h[row][col], maxHeatmapValue, 255)\<close>; the \<open>int\<close> is
  converted to the unsigned cell type.
\<close>

definition scale_cell :: "HeatmapType \<Rightarrow> Heatmap \<Rightarrow> nat \<Rightarrow> nat \<Rightarrow> error + Heatmap" where
  "scale_cell maxHeatmapValue h row col =
     (if row < length h \<and> col < length (h ! row)
      then case colorFromHeatmap (h ! row ! col) maxHeatmapValue 255 of
             Inl e \<Rightarrow> Inl e
           | Inr c \<Rightarrow> Inr (h[row := (h ! row)[col := word_of_int c]])
      else Inl UndefinedBehaviour)"

text \<open>The scaling loops of \<open>main\<close>, on the cells in the order the loops visit them.\<close>

fun main_scale ::
  "HeatmapType \<Rightarrow> (nat \<times> nat) list \<Rightarrow> Heatmap \<times> Heatmap \<times> Heatmap
   \<Rightarrow> error + Heatmap \<times> Heatmap \<times> Heatmap" where
  "main_scale maxHeatmapValue [] hs = Inr hs"
| "main_scale maxHeatmapValue ((row, col) # cells) (red, green, blue) =
     (case scale_cell maxHeatmapValue red row col of Inl e \<Rightarrow> Inl e | Inr red' \<Rightarrow>
     (case scale_cell maxHeatmapValue green row col of Inl e \<Rightarrow> Inl e | Inr green' \<Rightarrow>
     (case scale_cell maxHeatmapValue blue row col of Inl e \<Rightarrow> Inl e | Inr blue' \<Rightarrow>
        main_scale maxHeatmapValue cells (red', green', blue'))))"

text \<open>
  \<open>main\<close> from the allocation of the heatmaps to the scaled heatmaps it writes to the
  image file. The output stream, the timing and the release of the heatmaps are not
  modelled.
\<close>

definition main_heatmaps ::
  "Config \<Rightarrow> (nat \<Rightarrow> Complex) \<Rightarrow> (nat \<Rightarrow> Complex) \<Rightarrow> (nat \<Rightarrow> Complex)
   \<Rightarrow> error + Heatmap \<times> Heatmap \<times> Heatmap" where
  "main_heatmaps k rngRed rngGreen rngBlue =
     (case main_generate k rngRed rngGreen rngBlue of
        Inl e \<Rightarrow> Inl e
      | Inr (red, green, blue, maxHeatmapValue) \<Rightarrow>
          main_scale maxHeatmapValue
            (List.product [0..<nat (IMAGE_HEIGHT k)] [0..<nat (IMAGE_WIDTH k)])
            (red, green, blue))"

section \<open>Notions used in the statements and proofs\<close>

text \<open>
  The window test and the coordinate mapping of the loop body of \<open>GenerateHeatmap\<close>:
  \<open>None\<close> for a point outside the window, otherwise the cell the point is mapped to or
  the error of the mapping. \<open>bump\<close> is the increment of that cell with the update of the
  global maximum.
\<close>

definition point_cell ::
  "int \<Rightarrow> int \<Rightarrow> Complex \<Rightarrow> Complex \<Rightarrow> Complex \<Rightarrow> (error + int \<times> int) option" where
  "point_cell imageWidth imageHeight minimum maximum point =
     (if r point \<le> r maximum \<and> r point \<ge> r minimum
         \<and> i point \<le> i maximum \<and> i point \<ge> i minimum
      then Some (case rowFromReal (r point) (r minimum) (r maximum) imageHeight of
             Inl e \<Rightarrow> Inl e
           | Inr row \<Rightarrow>
          (case colFromImaginary (i point) (i minimum) (i maximum) imageWidth of
             Inl e \<Rightarrow> Inl e
           | Inr col \<Rightarrow> Inr (row, col)))
      else None)"

definition bump :: "int \<times> int \<Rightarrow> Heatmap \<times> HeatmapType \<Rightarrow> error + Heatmap \<times> HeatmapType" where
  "bump rc st = (case increment_cell (fst st) (fst rc) (snd rc) of
       Inl e \<Rightarrow> Inl e
     | Inr h \<Rightarrow> Inr (h, max (snd st) (h ! nat (fst rc) ! nat (snd rc))))"

text \<open>
  An index pair inside the allocated rows and columns, and the heatmap after the
  increment of one cell.
\<close>

definition inside :: "Heatmap \<Rightarrow> int \<times> int \<Rightarrow> bool" where
  "inside h rc \<longleftrightarrow> 0 \<le> fst rc \<and> fst rc < int (length h) \<and> 0 \<le> snd rc
       \<and> snd rc < int (length (h ! nat (fst rc)))"

definition upd :: "Heatmap \<Rightarrow> nat \<Rightarrow> nat \<Rightarrow> Heatmap" where
  "upd h a b = h[a := (h ! a)[b := h ! a ! b + 1]]"

text \<open>The loop body on a result that may already be an error.\<close>

definition feed ::
  "int \<Rightarrow> int \<Rightarrow> Complex \<Rightarrow> Complex \<Rightarrow> Complex \<Rightarrow> error + Heatmap \<times> HeatmapType
   \<Rightarrow> error + Heatmap \<times> HeatmapType" where
  "feed W H mn mx p x = (case x of Inl e \<Rightarrow> Inl e | Inr st \<Rightarrow> GenerateHeatmap_point W H mn mx p st)"

text \<open>
  The values that the increments \<open>++o_heatmap[row][col]\<close> produce, in the order in which
  they are executed: by one point, by the loop over \<open>pointsList\<close>, by the loop over the
  samples with the indices \<open>ks\<close>, by one channel pass and by the three passes of
  \<open>main\<close>.
\<close>

definition incremented_value ::
  "int \<Rightarrow> int \<Rightarrow> Complex \<Rightarrow> Complex \<Rightarrow> Complex \<Rightarrow> Heatmap \<Rightarrow> HeatmapType list" where
  "incremented_value imageWidth imageHeight minimum maximum point h =
     (case point_cell imageWidth imageHeight minimum maximum point of
        Some (Inr rc) \<Rightarrow>
          (case increment_cell h (fst rc) (snd rc) of
             Inl e \<Rightarrow> []
           | Inr h' \<Rightarrow> [h' ! nat (fst rc) ! nat (snd rc)])
      | _ \<Rightarrow> [])"

fun observed_points ::
  "int \<Rightarrow> int \<Rightarrow> Complex \<Rightarrow> Complex \<Rightarrow> Complex list \<Rightarrow> Heatmap \<Rightarrow> HeatmapType list" where
  "observed_points imageWidth imageHeight minimum maximum [] h = []"
| "observed_points imageWidth imageHeight minimum maximum (point # pointsList) h =
     (case GenerateHeatmap_point imageWidth imageHeight minimum maximum point (h, 0) of
        Inl e \<Rightarrow> []
      | Inr st' \<Rightarrow>
          incremented_value imageWidth imageHeight minimum maximum point h
          @ observed_points imageWidth imageHeight minimum maximum pointsList (fst st'))"

fun observed_samples ::
  "int \<Rightarrow> int \<Rightarrow> Complex \<Rightarrow> Complex \<Rightarrow> int \<Rightarrow> (nat \<Rightarrow> Complex) \<Rightarrow> nat list \<Rightarrow> Heatmap
   \<Rightarrow> HeatmapType list" where
  "observed_samples imageWidth imageHeight minimum maximum nIterations rng [] h = []"
| "observed_samples imageWidth imageHeight minimum maximum nIterations rng (k # ks) h =
     (case buddhabrotPoints (rng k) nIterations of
        Inl e \<Rightarrow> []
      | Inr pointsList \<Rightarrow>
         (case GenerateHeatmap_points imageWidth imageHeight minimum maximum pointsList (h, 0) of
            Inl e \<Rightarrow> []
          | Inr st' \<Rightarrow>
              observed_points imageWidth imageHeight minimum maximum pointsList h
              @ observed_samples imageWidth imageHeight minimum maximum nIterations rng ks
                  (fst st')))"

definition GenerateHeatmap_observed ::
  "Heatmap \<Rightarrow> int \<Rightarrow> int \<Rightarrow> Complex \<Rightarrow> Complex \<Rightarrow> int \<Rightarrow> int \<Rightarrow> (nat \<Rightarrow> Complex)
   \<Rightarrow> HeatmapType list" where
  "GenerateHeatmap_observed o_heatmap imageWidth imageHeight minimum maximum nIterations
     nSamples rng =
     observed_samples imageWidth imageHeight minimum maximum nIterations rng
       [0..<nat nSamples] o_heatmap"

definition main_observed ::
  "Config \<Rightarrow> (nat \<Rightarrow> Complex) \<Rightarrow> (nat \<Rightarrow> Complex) \<Rightarrow> (nat \<Rightarrow> Complex) \<Rightarrow> HeatmapType list" where
  "main_observed k rngRed rngGreen rngBlue =
     (let fresh = replicate (nat (IMAGE_HEIGHT k)) (replicate (nat (IMAGE_WIDTH k)) 0) in
      GenerateHeatmap_observed fresh (IMAGE_WIDTH k) (IMAGE_HEIGHT k) (MINIMUM k) (MAXIMUM k)
        (RED_ITERS k) (SAMPLE_COUNT k) rngRed
      @ GenerateHeatmap_observed fresh (IMAGE_WIDTH k) (IMAGE_HEIGHT k) (MINIMUM k) (MAXIMUM k)
        (GREEN_ITERS k) (SAMPLE_COUNT k) rngGreen
      @ GenerateHeatmap_observed fresh (IMAGE_WIDTH k) (IMAGE_HEIGHT k) (MINIMUM k) (MAXIMUM k)
        (BLUE_ITERS k) (SAMPLE_COUNT k) rngBlue)"

text \<open>A small image, on which the passes of \<open>main\<close> can be evaluated.\<close>

definition small_image :: Config where
  "small_image =
     \<lparr>MINIMUM = MkComplex (- 2) (- 2), MAXIMUM = MkComplex 1 2,
      IMAGE_HEIGHT = 2, IMAGE_WIDTH = 2,
      RED_ITERS = 3, BLUE_ITERS = 3, GREEN_ITERS = 3,
      SAMPLE_COUNT = 2\<rparr>"

section \<open>Rounding error of the double-precision operators\<close>

lemma round_to_even_error: "\<bar>of_int (round_to_even y) - y\<bar> \<le> 1 / 2"
proof -
  have "of_int \<lfloor>y\<rfloor> \<le> y" and "y < of_int \<lfloor>y\<rfloor> + 1"
    by linarith+
  then show ?thesis
    unfolding round_to_even_def Let_def by (simp add: abs_le_iff)
qed

lemma pow2_powi: "pow2 e = power_int 2 e"
  by (simp add: pow2_def power_int_def inverse_eq_divide power_divide)

lemma pow_nat_powi: "0 \<le> k \<Longrightarrow> (2::rat) ^ nat k = power_int 2 k"
  by (simp add: power_int_def)

lemma binade_lower:
  assumes "x \<noteq> 0"
  shows "power_int 2 (binade x) \<le> \<bar>x\<bar>"
proof -
  obtain p q where pq: "quotient_of \<bar>x\<bar> = (p, q)" by (cases "quotient_of \<bar>x\<bar>")
  have q: "0 < q" using pq by (rule quotient_of_denom_pos)
  have x: "\<bar>x\<bar> = of_int p / of_int q" using pq by (rule quotient_of_div)
  have "0 < \<bar>x\<bar>" using assms by simp
  then have p: "0 < p" using q unfolding x by (simp add: zero_less_divide_iff)
  define d where "d = bitlen p - bitlen q"
  show ?thesis
  proof (cases "power_int 2 d \<le> \<bar>x\<bar>")
    case True
    then show ?thesis by (simp add: binade_def pq d_def pow2_powi)
  next
    case False
    then have b: "binade x = d - 1" by (simp add: binade_def pq d_def pow2_powi)
    have bp: "1 \<le> bitlen p" using p by (simp add: bitlen_alt_def)
    have bq: "1 \<le> bitlen q" using q by (simp add: bitlen_alt_def)
    have 1: "(2::int) ^ nat (bitlen p - 1) \<le> p" using bitlen_bounds[OF p] by simp
    have 2: "q < (2::int) ^ nat (bitlen q)" using bitlen_bounds[OF q] by simp
    have r1: "(2::rat) ^ nat (bitlen p - 1) \<le> of_int p"
      using 1 by (metis of_int_le_iff of_int_numeral of_int_power)
    have r2: "of_int q \<le> (2::rat) ^ nat (bitlen q)"
      using 2 by (metis less_imp_le of_int_le_iff of_int_numeral of_int_power)
    have "power_int (2::rat) (d - 1) = 2 ^ nat (bitlen p - 1) / 2 ^ nat (bitlen q)"
    proof -
      have "d - 1 = (bitlen p - 1) - bitlen q" by (simp add: d_def)
      then show ?thesis
        using bp bq by (simp add: pow_nat_powi power_int_diff)
    qed
    also have "\<dots> \<le> of_int p / of_int q"
      using r1 r2 p q by (intro frac_le) auto
    finally show ?thesis unfolding b x .
  qed
qed

lemma binade_upper:
  assumes "x \<noteq> 0"
  shows "\<bar>x\<bar> < power_int 2 (binade x + 1)"
proof -
  obtain p q where pq: "quotient_of \<bar>x\<bar> = (p, q)" by (cases "quotient_of \<bar>x\<bar>")
  have q: "0 < q" using pq by (rule quotient_of_denom_pos)
  have x: "\<bar>x\<bar> = of_int p / of_int q" using pq by (rule quotient_of_div)
  have "0 < \<bar>x\<bar>" using assms by simp
  then have p: "0 < p" using q unfolding x by (simp add: zero_less_divide_iff)
  define d where "d = bitlen p - bitlen q"
  show ?thesis
  proof (cases "power_int 2 d \<le> \<bar>x\<bar>")
    case False
    then show ?thesis by (simp add: binade_def pq d_def pow2_powi)
  next
    case True
    then have b: "binade x = d" by (simp add: binade_def pq d_def pow2_powi)
    have bp: "1 \<le> bitlen p" using p by (simp add: bitlen_alt_def)
    have bq: "1 \<le> bitlen q" using q by (simp add: bitlen_alt_def)
    have 1: "p < (2::int) ^ nat (bitlen p)" using bitlen_bounds[OF p] by simp
    have 2: "(2::int) ^ nat (bitlen q - 1) \<le> q" using bitlen_bounds[OF q] by simp
    have r1: "of_int p < (2::rat) ^ nat (bitlen p)"
      using 1 by (metis of_int_less_iff of_int_numeral of_int_power)
    have r2: "(2::rat) ^ nat (bitlen q - 1) \<le> of_int q"
      using 2 by (metis of_int_le_iff of_int_numeral of_int_power)
    have "of_int p / of_int q < (2::rat) ^ nat (bitlen p) / 2 ^ nat (bitlen q - 1)"
      using r1 r2 p q by (intro frac_less) auto
    also have "\<dots> = power_int (2::rat) (d + 1)"
    proof -
      have "d + 1 = bitlen p - (bitlen q - 1)" by (simp add: d_def)
      moreover have "power_int (2::rat) (bitlen p - (bitlen q - 1))
          = power_int 2 (bitlen p) / power_int 2 (bitlen q - 1)"
        by (rule power_int_diff) simp
      moreover have "(2::rat) ^ nat (bitlen p) = power_int 2 (bitlen p)"
        using bp by (intro pow_nat_powi) simp
      moreover have "(2::rat) ^ nat (bitlen q - 1) = power_int 2 (bitlen q - 1)"
        using bq by (intro pow_nat_powi) simp
      ultimately show ?thesis by (simp only:)
    qed
    finally show ?thesis unfolding b x .
  qed
qed

lemma double_round_error: "\<bar>double_round x - x\<bar> \<le> \<bar>x\<bar> / 2 ^ 53"
proof (cases "x = 0")
  case True
  then show ?thesis by (simp add: double_round_def)
next
  case False
  define u :: rat where "u = power_int 2 (binade x - 52)"
  have u: "0 < u" by (simp add: u_def)
  have dr: "double_round x = of_int (round_to_even (x / u)) * u"
    using False by (simp add: double_round_def u_def Let_def pow2_powi)
  have "\<bar>double_round x - x\<bar> = \<bar>of_int (round_to_even (x / u)) - x / u\<bar> * u"
  proof -
    have "double_round x - x = (of_int (round_to_even (x / u)) - x / u) * u"
      using u by (simp add: dr left_diff_distrib)
    then show ?thesis using u by (simp add: abs_mult)
  qed
  also have "\<dots> \<le> (1 / 2) * u"
    using u round_to_even_error[of "x / u"] by (intro mult_right_mono) auto
  also have "\<dots> = power_int 2 (binade x) / 2 ^ 53"
    by (simp add: u_def power_int_diff)
  also have "\<dots> \<le> \<bar>x\<bar> / 2 ^ 53"
    using binade_lower[OF False] by (simp add: divide_right_mono)
  finally show ?thesis .
qed

lemma double_round_zero: "double_round 0 = 0"
  by (simp add: double_round_def)

lemma double_round_abs_lower: "\<bar>x\<bar> * (1 - 1 / 2 ^ 53) \<le> \<bar>double_round x\<bar>"
proof -
  have "\<bar>x\<bar> * (1 - 1 / 2 ^ 53) = \<bar>x\<bar> - \<bar>x\<bar> / 2 ^ 53"
    by (simp only: right_diff_distrib mult_1_right times_divide_eq_right)
  then show ?thesis using double_round_error[of x] by linarith
qed

lemma double_round_lower:
  assumes "0 \<le> x"
  shows "x * (1 - 1 / 2 ^ 53) \<le> double_round x"
proof -
  have "x * (1 - 1 / 2 ^ 53) = x - x / 2 ^ 53"
    by (simp only: right_diff_distrib mult_1_right times_divide_eq_right)
  then show ?thesis using double_round_error[of x] assms by linarith
qed

lemma double_square_lower:
  "a * a * (1 - 1 / 2 ^ 53) ^ 3 \<le> double_mul (double_round a) (double_round a)"
proof -
  define q :: rat where "q = 1 - 1 / 2 ^ 53"
  have q: "0 \<le> q" by (simp add: q_def)
  have "(\<bar>a\<bar> * q) ^ 2 \<le> \<bar>double_round a\<bar> ^ 2"
    using double_round_abs_lower[of a] q unfolding q_def[symmetric]
    by (intro power_mono) auto
  then have 1: "a * a * q ^ 2 \<le> double_round a * double_round a"
    by (simp add: power2_eq_square algebra_simps abs_mult_self_eq)
  have "a * a * q ^ 3 = (a * a * q ^ 2) * q" by (simp add: power3_eq_cube power2_eq_square)
  also have "\<dots> \<le> (double_round a * double_round a) * q"
    using 1 q by (rule mult_right_mono)
  also have "\<dots> \<le> double_round (double_round a * double_round a)"
    unfolding q_def by (rule double_round_lower) simp
  finally show ?thesis by (simp add: double_mul_def q_def)
qed

lemma iterate_1: "iterate c 1 = MkComplex (double_round (r c)) (double_round (i c))"
  by (simp add: Complex_add_def Complex_mul_def double_add_def double_sub_def double_mul_def
      double_round_zero)

lemma sqmagnitude_first:
  assumes "4 < r c * r c + i c * i c"
  shows "2 < sqmagnitude (iterate c 1)"
proof -
  define q :: rat where "q = 1 - 1 / 2 ^ 53"
  define A where "A = double_mul (double_round (r c)) (double_round (r c))"
  define B where "B = double_mul (double_round (i c)) (double_round (i c))"
  have q: "0 < q" by (simp add: q_def)
  have q3: "0 < q ^ 3" using q by simp
  have A: "r c * r c * q ^ 3 \<le> A" unfolding A_def q_def by (rule double_square_lower)
  have B: "i c * i c * q ^ 3 \<le> B" unfolding B_def q_def by (rule double_square_lower)
  have "4 * q ^ 3 < (r c * r c + i c * i c) * q ^ 3"
    using assms q3 by (rule mult_strict_right_mono)
  also have "\<dots> \<le> A + B" using A B by (simp add: algebra_simps)
  finally have S: "4 * q ^ 3 < A + B" .
  then have S0: "0 \<le> A + B" using q3 by (simp add: less_imp_le order_trans[of 0 "4 * q ^ 3"])
  have "(7 / 8 :: rat) \<le> q" by (simp add: q_def)
  then have "(7 / 8 :: rat) ^ 4 \<le> q ^ 4" by (intro power_mono) auto
  moreover have "(1 / 2 :: rat) \<le> (7 / 8) ^ 4" by (simp add: power_divide)
  ultimately have "(2::rat) \<le> 4 * q ^ 4" by linarith
  then have "(2::rat) \<le> 4 * q ^ 3 * q" by (simp add: power_eq_if)
  also have "\<dots> < (A + B) * q" using S q by (rule mult_strict_right_mono)
  also have "\<dots> \<le> double_round (A + B)"
    unfolding q_def using S0 by (rule double_round_lower)
  finally have "2 < double_round (A + B)" .
  then show ?thesis
    by (simp only: iterate_1 sqmagnitude_def Complex.sel double_add_def A_def B_def)
qed

section \<open>The loop of the trajectory generator\<close>

lemma loop_stop:
  "\<not> (n < N \<and> sqmagnitude z \<le> 2) \<Longrightarrow> buddhabrotPoints_loop c N n z acc = (n, acc)"
  by (subst buddhabrotPoints_loop.simps) auto

lemma loop_step:
  "n < N \<Longrightarrow> sqmagnitude z \<le> 2 \<Longrightarrow>
   buddhabrotPoints_loop c N n z acc =
   buddhabrotPoints_loop c N (n + 1) (Complex_add (Complex_mul z z) c)
     (acc @ [Complex_add (Complex_mul z z) c])"
  by (subst buddhabrotPoints_loop.simps) simp

lemma loop_count:
  "buddhabrotPoints_loop c N n z acc = (n', acc') \<Longrightarrow>
   n \<le> n' \<and> n' \<le> max n N \<and> int (length acc') = int (length acc) + (n' - n)"
proof (induction c N n z acc rule: buddhabrotPoints_loop.induct)
  case (1 c N n z acc)
  show ?case
  proof (cases "n < N \<and> sqmagnitude z \<le> 2")
    case True
    then have "buddhabrotPoints_loop c N (n + 1) (Complex_add (Complex_mul z z) c)
       (acc @ [Complex_add (Complex_mul z z) c]) = (n', acc')"
      using "1.prems" loop_step by simp
    from "1.IH"[OF True this] True show ?thesis by auto
  next
    case False
    then show ?thesis using "1.prems" loop_stop by auto
  qed
qed

lemma loop_run:
  assumes "\<forall>j. k \<le> j \<and> j < m \<longrightarrow> sqmagnitude (iterate c j) \<le> 2"
    and "int m \<le> N" and "k \<le> m"
  shows "buddhabrotPoints_loop c N (int k) (iterate c k) acc =
         buddhabrotPoints_loop c N (int m) (iterate c m) (acc @ map (iterate c) [Suc k..<Suc m])"
  using assms
proof (induction m)
  case 0
  then show ?case by simp
next
  case (Suc m)
  show ?case
  proof (cases "k = Suc m")
    case True
    then show ?thesis by simp
  next
    case False
    then have km: "k \<le> m" using Suc.prems by simp
    have b: "sqmagnitude (iterate c m) \<le> 2" using Suc.prems km by simp
    have lt: "int m < N" using Suc.prems by simp
    have "buddhabrotPoints_loop c N (int k) (iterate c k) acc =
          buddhabrotPoints_loop c N (int m) (iterate c m) (acc @ map (iterate c) [Suc k..<Suc m])"
      using Suc.IH Suc.prems km by simp
    also have "\<dots> = buddhabrotPoints_loop c N (int m + 1) (iterate c (Suc m))
          ((acc @ map (iterate c) [Suc k..<Suc m]) @ [iterate c (Suc m)])"
      using loop_step[OF lt b] by simp
    also have "(acc @ map (iterate c) [Suc k..<Suc m]) @ [iterate c (Suc m)]
          = acc @ map (iterate c) [Suc k..<Suc (Suc m)]"
      using km by simp
    finally show ?thesis by (simp add: add.commute)
  qed
qed

lemma loop_bounded:
  assumes "0 \<le> N" and "\<forall>k. int k < N \<longrightarrow> sqmagnitude (iterate c k) \<le> 2"
  shows "buddhabrotPoints_loop c N 0 (MkComplex 0 0) [] = (N, map (iterate c) [1..<Suc (nat N)])"
proof -
  have "buddhabrotPoints_loop c N (int 0) (iterate c 0) [] =
        buddhabrotPoints_loop c N (int (nat N)) (iterate c (nat N)) ([] @ map (iterate c) [Suc 0..<Suc (nat N)])"
    using assms by (intro loop_run) auto
  also have "\<dots> = (int (nat N), [] @ map (iterate c) [Suc 0..<Suc (nat N)])"
    using assms by (intro loop_stop) simp
  finally show ?thesis using assms by simp
qed

lemma loop_escape:
  assumes "int k < N" and "2 < sqmagnitude (iterate c k)"
    and "\<forall>j<k. sqmagnitude (iterate c j) \<le> 2"
  shows "buddhabrotPoints_loop c N 0 (MkComplex 0 0) [] = (int k, map (iterate c) [1..<Suc k])"
proof -
  have "buddhabrotPoints_loop c N (int 0) (iterate c 0) [] =
        buddhabrotPoints_loop c N (int k) (iterate c k) ([] @ map (iterate c) [Suc 0..<Suc k])"
    using assms by (intro loop_run) auto
  also have "\<dots> = (int k, [] @ map (iterate c) [Suc 0..<Suc k])"
    using assms by (intro loop_stop) simp
  finally show ?thesis by simp
qed

lemma first_escape:
  assumes "2 < sqmagnitude (iterate c k)"
  shows "\<exists>m\<le>k. 2 < sqmagnitude (iterate c m) \<and> (\<forall>j<m. sqmagnitude (iterate c j) \<le> 2)"
proof -
  define P where "P = (\<lambda>m. 2 < sqmagnitude (iterate c m))"
  have "P k" using assms by (simp add: P_def)
  then have "P (LEAST m. P m)" and "(LEAST m. P m) \<le> k"
    by (rule LeastI, rule Least_le)
  moreover have "\<forall>j<(LEAST m. P m). \<not> P j" using not_less_Least by blast
  ultimately show ?thesis unfolding P_def by (metis leD leI)
qed

lemma sqmagnitude_zero: "sqmagnitude (MkComplex 0 0) = 0"
  by (simp add: sqmagnitude_def double_mul_def double_add_def double_round_def)

section \<open>Claims on the trajectory generator\<close>

lemma buddhabrotPoints_escape:
  assumes "int k < N" and "2 < sqmagnitude (iterate c k)"
    and "\<forall>j<k. sqmagnitude (iterate c j) \<le> 2"
  shows "buddhabrotPoints c N = Inr (map (iterate c) [1..<Suc k])" and "0 < k"
proof -
  show k: "0 < k" using assms(2) sqmagnitude_zero by (cases k) auto
  have "0 \<le> N" using assms(1) by simp
  then show "buddhabrotPoints c N = Inr (map (iterate c) [1..<Suc k])"
    using assms(1) loop_escape[OF assms] by (simp add: buddhabrotPoints_def)
qed

lemma buddhabrotPoints_bounded:
  assumes "0 \<le> N" and "\<forall>k. int k < N \<longrightarrow> sqmagnitude (iterate c k) \<le> 2"
  shows "buddhabrotPoints c N = Inr []"
  using assms loop_bounded[OF assms] by (simp add: buddhabrotPoints_def)

lemma trajectory_3_0_bound_1: "buddhabrotPoints (MkComplex 3 0) 1 = Inr []"
  by code_simp

lemma trajectory_1_1_bound_2: "buddhabrotPoints (MkComplex 1 1) 2 = Inr []"
  by code_simp

lemma trajectory_1_1_bound_3:
  "buddhabrotPoints (MkComplex 1 1) 3 = Inr [MkComplex 1 1, MkComplex 1 3]"
  by code_simp

lemma iterate_1_1:
  "iterate (MkComplex 1 1) 1 = MkComplex 1 1" "iterate (MkComplex 1 1) 2 = MkComplex 1 3"
  by code_simp+

lemma sqmagnitude_values:
  "sqmagnitude (MkComplex 1 1) = 2" "sqmagnitude (MkComplex 1 3) = 10"
  by code_simp+

text \<open>
  Claim C2, as stated: for every candidate \<open>c\<close> with \<open>|c| > 2\<close> and every positive
  iteration bound, \<open>buddhabrotPoints\<close> returns a non-empty sequence whose first element
  has squared magnitude above 2. It fails for the bound 1: the candidate \<open>3 + 0i\<close> has
  \<open>|c|\<^sup>2 = 9 > 4\<close>, the loop runs once and stops with \<open>n = nIterations\<close>, and the
  function returns the empty sequence.
\<close>

theorem immediate_escape_counterexample:
  "(0::int) < 1
   \<and> 4 < r (MkComplex 3 0) * r (MkComplex 3 0) + i (MkComplex 3 0) * i (MkComplex 3 0)
   \<and> buddhabrotPoints (MkComplex 3 0) 1 = Inr []"
  using trajectory_3_0_bound_1 by simp

text \<open>
  Claim C2, amended: for every candidate \<open>c\<close> with \<open>|c| > 2\<close> (exact squared magnitude
  above 4) and every iteration bound of at least 2, \<open>buddhabrotPoints\<close> returns a
  sequence of exactly one element, whose squared magnitude, as the program computes it,
  is above 2.
\<close>

theorem immediate_escape:
  assumes "2 \<le> N" and "4 < r c * r c + i c * i c"
  shows "\<exists>z. buddhabrotPoints c N = Inr [z] \<and> 2 < sqmagnitude z"
proof -
  have k: "int 1 < N" using assms(1) by simp
  have z: "\<forall>j<1. sqmagnitude (iterate c j) \<le> 2" by (simp add: sqmagnitude_zero)
  have "buddhabrotPoints c N = Inr (map (iterate c) [1..<Suc 1])"
    using k sqmagnitude_first[OF assms(2)] z by (rule buddhabrotPoints_escape)
  then have "buddhabrotPoints c N = Inr [iterate c 1]" by simp
  then show ?thesis using sqmagnitude_first[OF assms(2)] by blast
qed

theorem immediate_escape_witness:
  "(2::int) \<le> 2
   \<and> 4 < r (MkComplex 3 0) * r (MkComplex 3 0) + i (MkComplex 3 0) * i (MkComplex 3 0)
   \<and> (\<exists>z. buddhabrotPoints (MkComplex 3 0) 2 = Inr [z] \<and> 2 < sqmagnitude z)"
  using immediate_escape[of 2 "MkComplex 3 0"] by simp

text \<open>
  Claim C3, as stated: for a positive bound \<open>N\<close>, \<open>buddhabrotPoints\<close> returns the empty
  sequence exactly when no iterate within \<open>N\<close> iterations has squared magnitude above 2,
  and otherwise the visited points up to the escaping one. It fails when the first
  escape is at iteration \<open>N\<close> itself: for \<open>c = 1 + i\<close> and \<open>N = 2\<close> the second iterate
  \<open>1 + 3i\<close> has squared magnitude 10, and the function returns the empty sequence.
\<close>

theorem trajectory_characterisation_counterexample:
  "buddhabrotPoints (MkComplex 1 1) 2 = Inr []
   \<and> iterate (MkComplex 1 1) 2 = MkComplex 1 3
   \<and> 2 < sqmagnitude (iterate (MkComplex 1 1) 2)"
proof -
  have "2 < sqmagnitude (iterate (MkComplex 1 1) 2)"
    by (simp only: iterate_1_1 sqmagnitude_values)
  then show ?thesis using trajectory_1_1_bound_2 iterate_1_1(2) by simp
qed

text \<open>
  Claim C3, amended: for a positive bound \<open>N\<close>, \<open>buddhabrotPoints\<close> returns the empty
  sequence exactly when none of the iterates \<open>z\<^sub>0, \<dots>, z\<^sub>N\<^sub>-\<^sub>1\<close> has squared magnitude above
  2, that is when no escape is seen before the \<open>N\<close>-th iteration (the iterate \<open>z\<^sub>N\<close> is
  not tested). When the first iterate with squared magnitude above 2 is \<open>z\<^sub>k\<close> with
  \<open>k < N\<close>, it returns the visited points \<open>z\<^sub>1, \<dots>, z\<^sub>k\<close>, the escaping one included.
\<close>

theorem trajectory_characterisation:
  assumes "0 < N"
  shows "(buddhabrotPoints c N = Inr [] \<longleftrightarrow> (\<forall>k. int k < N \<longrightarrow> sqmagnitude (iterate c k) \<le> 2))
       \<and> (\<forall>k. int k < N \<and> 2 < sqmagnitude (iterate c k)
               \<and> (\<forall>j<k. sqmagnitude (iterate c j) \<le> 2)
             \<longrightarrow> buddhabrotPoints c N = Inr (map (iterate c) [1..<Suc k]))"
proof -
  have N: "0 \<le> N" using assms by simp
  have "\<forall>k. int k < N \<longrightarrow> sqmagnitude (iterate c k) \<le> 2" if e: "buddhabrotPoints c N = Inr []"
  proof (rule ccontr)
    assume "\<not> (\<forall>k. int k < N \<longrightarrow> sqmagnitude (iterate c k) \<le> 2)"
    then obtain k where k: "int k < N" "2 < sqmagnitude (iterate c k)" by (auto simp: not_le)
    from first_escape[OF k(2)] obtain m where
      m: "m \<le> k" "2 < sqmagnitude (iterate c m)" "\<forall>j<m. sqmagnitude (iterate c j) \<le> 2" by blast
    have "int m < N" using m(1) k(1) by simp
    from buddhabrotPoints_escape[OF this m(2) m(3)] e show False
      by (auto simp: upt_conv_Cons)
  qed
  with buddhabrotPoints_bounded[OF N] buddhabrotPoints_escape(1) show ?thesis by blast
qed

theorem trajectory_characterisation_witness:
  "(0::int) < 3
   \<and> int 2 < 3 \<and> 2 < sqmagnitude (iterate (MkComplex 1 1) 2)
   \<and> sqmagnitude (iterate (MkComplex 1 1) 0) \<le> 2
   \<and> sqmagnitude (iterate (MkComplex 1 1) 1) \<le> 2
   \<and> buddhabrotPoints (MkComplex 1 1) 3 = Inr (map (iterate (MkComplex 1 1)) [1..<Suc 2])
   \<and> buddhabrotPoints (MkComplex 1 1) 3 \<noteq> Inr []
   \<and> \<not> (\<forall>k. int k < 3 \<longrightarrow> sqmagnitude (iterate (MkComplex 1 1) k) \<le> 2)"
proof -
  have a: "2 < sqmagnitude (iterate (MkComplex 1 1) 2)"
    by (simp only: iterate_1_1 sqmagnitude_values)
  have b: "\<forall>j<2. sqmagnitude (iterate (MkComplex 1 1) j) \<le> 2"
  proof (intro allI impI)
    fix j :: nat assume "j < 2"
    then have "j = 0 \<or> j = 1" by auto
    then show "sqmagnitude (iterate (MkComplex 1 1) j) \<le> 2"
      using iterate_1_1(1) sqmagnitude_values(1) sqmagnitude_zero by auto
  qed
  have c: "(0::int) < 3" by simp
  note t = trajectory_characterisation[OF c, of "MkComplex 1 1"]
  have d: "buddhabrotPoints (MkComplex 1 1) 3 = Inr (map (iterate (MkComplex 1 1)) [1..<Suc 2])"
    using t[THEN conjunct2, rule_format, of 2] a b by simp
  have e: "buddhabrotPoints (MkComplex 1 1) 3 \<noteq> Inr []"
    using trajectory_1_1_bound_3 by simp
  then have f: "\<not> (\<forall>k. int k < 3 \<longrightarrow> sqmagnitude (iterate (MkComplex 1 1) k) \<le> 2)"
    using t[THEN conjunct1] by simp
  have g: "sqmagnitude (iterate (MkComplex 1 1) 0) \<le> 2"
    "sqmagnitude (iterate (MkComplex 1 1) 1) \<le> 2"
    using b[rule_format, of 0] b[rule_format, of 1] by (simp_all del: iterate.simps)
  show ?thesis using a d e f g by (simp del: iterate.simps)
qed

text \<open>
  Claim C8: every non-empty sequence that \<open>buddhabrotPoints\<close> returns for the iteration
  bound \<open>N\<close> has fewer than \<open>N\<close> elements.
\<close>

theorem trajectory_length_below_bound:
  assumes "buddhabrotPoints c N = Inr xs" and "xs \<noteq> []"
  shows "int (length xs) < N"
proof -
  obtain n acc where l: "buddhabrotPoints_loop c N 0 (MkComplex 0 0) [] = (n, acc)"
    by (cases "buddhabrotPoints_loop c N 0 (MkComplex 0 0) []")
  have N: "0 \<le> N" using assms by (auto simp: buddhabrotPoints_def split: if_splits)
  from loop_count[OF l] N have c: "n \<le> N" "int (length acc) = n" by auto
  from assms l N have "n \<noteq> N" "xs = acc"
    by (auto simp: buddhabrotPoints_def split: if_splits)
  with c show ?thesis by simp
qed

theorem trajectory_length_below_bound_witness:
  "buddhabrotPoints (MkComplex 1 1) 3 = Inr [MkComplex 1 1, MkComplex 1 3]
   \<and> [MkComplex 1 1, MkComplex 1 3] \<noteq> []
   \<and> int (length [MkComplex 1 1, MkComplex 1 3]) < 3"
  using trajectory_length_below_bound[OF trajectory_1_1_bound_3] trajectory_1_1_bound_3
  by simp

text \<open>
  Claim C10, as stated: \<open>buddhabrotPoints\<close> returns for every candidate and every integer
  bound \<open>N\<close>, the loop runs at most \<open>max(N, 0)\<close> times, and for \<open>N \<le> 0\<close> the returned
  sequence is empty. It fails for a negative bound: \<open>reserve\<close> throws
  \<open>std::length_error\<close> before the loop, and no sequence is returned.
\<close>

theorem trajectory_terminates_counterexample:
  "buddhabrotPoints (MkComplex 0 0) (- 1) = Inl length_error"
  by (simp add: buddhabrotPoints_def)

text \<open>
  Claim C10, amended: \<open>buddhabrotPoints\<close> terminates on every input. For a bound
  \<open>N \<ge> 0\<close> the loop executes at most \<open>N\<close> times and a sequence of at most \<open>N\<close> points is
  returned, the empty one for \<open>N = 0\<close>; for \<open>N < 0\<close> the loop is not entered and the call
  ends with \<open>std::length_error\<close>.
\<close>

theorem trajectory_terminates:
  "(N < 0 \<longrightarrow> buddhabrotPoints c N = Inl length_error)
   \<and> (0 \<le> N \<longrightarrow> fst (buddhabrotPoints_loop c N 0 (MkComplex 0 0) []) \<le> N
                \<and> (\<exists>xs. buddhabrotPoints c N = Inr xs \<and> int (length xs) \<le> N))
   \<and> buddhabrotPoints c 0 = Inr []"
proof -
  obtain n acc where l: "buddhabrotPoints_loop c N 0 (MkComplex 0 0) [] = (n, acc)"
    by (cases "buddhabrotPoints_loop c N 0 (MkComplex 0 0) []")
  from loop_count[OF l] have c: "0 \<le> N \<Longrightarrow> n \<le> N" "int (length acc) = n" by auto
  have z: "buddhabrotPoints_loop c 0 0 (MkComplex 0 0) [] = (0, [])"
    by (rule loop_stop) simp
  show ?thesis
    using l c z by (auto simp: buddhabrotPoints_def)
qed

theorem trajectory_terminates_witness:
  "(- 1 :: int) < 0 \<and> buddhabrotPoints (MkComplex 1 1) (- 1) = Inl length_error
   \<and> (0::int) \<le> 3 \<and> fst (buddhabrotPoints_loop (MkComplex 1 1) 3 0 (MkComplex 0 0) []) \<le> 3
   \<and> (\<exists>xs. buddhabrotPoints (MkComplex 1 1) 3 = Inr xs \<and> int (length xs) \<le> 3)"
  using trajectory_terminates[of "- 1" "MkComplex 1 1"]
    trajectory_terminates[of 3 "MkComplex 1 1"] by simp

section \<open>The loop body as a cell increment\<close>

lemma double_to_int_error: "double_to_int x = Inl e \<Longrightarrow> e = UndefinedBehaviour"
  by (auto simp: double_to_int_def Let_def split: if_splits)

lemma rowFromReal_error: "rowFromReal x a b n = Inl e \<Longrightarrow> e = UndefinedBehaviour"
  by (auto simp: rowFromReal_def split: if_splits dest: double_to_int_error)

lemma colFromImaginary_error: "colFromImaginary x a b n = Inl e \<Longrightarrow> e = UndefinedBehaviour"
  by (auto simp: colFromImaginary_def split: if_splits dest: double_to_int_error)

lemma point_cell_error:
  "point_cell W H mn mx p = Some (Inl e) \<Longrightarrow> e = UndefinedBehaviour"
  by (auto simp: point_cell_def split: if_splits sum.splits
      dest: rowFromReal_error colFromImaginary_error)

lemma increment_cell_error: "increment_cell h row col = Inl e \<Longrightarrow> e = UndefinedBehaviour"
  by (auto simp: increment_cell_def split: if_splits)

lemma bump_error: "bump rc st = Inl e \<Longrightarrow> e = UndefinedBehaviour"
  by (auto simp: bump_def split: sum.splits dest: increment_cell_error)

lemma point_as_cell:
  "GenerateHeatmap_point W H mn mx p st =
     (case point_cell W H mn mx p of
        None \<Rightarrow> Inr st
      | Some (Inl e) \<Rightarrow> Inl e
      | Some (Inr rc) \<Rightarrow> bump rc st)"
  by (cases st)
     (auto simp: GenerateHeatmap_point_def point_cell_def bump_def max_def
        split: sum.splits)

lemma bump_inside:
  "inside h rc \<Longrightarrow> bump rc (h, m) =
     Inr (upd h (nat (fst rc)) (nat (snd rc)),
          max m (upd h (nat (fst rc)) (nat (snd rc)) ! nat (fst rc) ! nat (snd rc)))"
  by (simp add: bump_def increment_cell_def inside_def upd_def)

lemma bump_outside: "\<not> inside h rc \<Longrightarrow> bump rc (h, m) = Inl UndefinedBehaviour"
  by (auto simp: bump_def increment_cell_def inside_def)

lemma length_upd [simp]: "length (upd h a b) = length h"
  by (simp add: upd_def)

lemma length_upd_row [simp]: "length (upd h a b ! k) = length (h ! k)"
  by (cases "a < length h") (auto simp: upd_def nth_list_update list_update_beyond)

lemma inside_upd [simp]: "inside (upd h a b) rc = inside h rc"
  by (simp add: inside_def)

lemma upd_nth:
  "a < length h \<Longrightarrow> b < length (h ! a) \<Longrightarrow>
   upd h a b ! a' ! b' = (if a' = a \<and> b' = b then h ! a ! b + 1 else h ! a' ! b')"
  by (auto simp: upd_def nth_list_update)

lemma upd_commute:
  assumes "a < length h" "b < length (h ! a)" "a' < length h" "b' < length (h ! a')"
  shows "upd (upd h a b) a' b' = upd (upd h a' b') a b"
proof (cases "a = a'")
  case True
  show ?thesis
  proof (cases "b = b'")
    case True
    with \<open>a = a'\<close> show ?thesis by simp
  next
    case False
    with True assms show ?thesis
      by (simp add: upd_def nth_list_update list_update_swap)
  qed
next
  case False
  with assms show ?thesis
    by (simp add: upd_def nth_list_update list_update_swap)
qed

lemma bump_commute:
  "(case bump rc st of Inl e \<Rightarrow> Inl e | Inr st' \<Rightarrow> bump rc' st') =
   (case bump rc' st of Inl e \<Rightarrow> Inl e | Inr st' \<Rightarrow> bump rc st')"
proof -
  obtain h m where st: "st = (h, m)" by (cases st)
  show ?thesis
  proof (cases "inside h rc \<and> inside h rc'")
    case False
    then show ?thesis
      by (cases "inside h rc"; cases "inside h rc'")
         (auto simp: st bump_inside bump_outside)
  next
    case True
    define a b a' b' where "a = nat (fst rc)" "b = nat (snd rc)" "a' = nat (fst rc')" "b' = nat (snd rc')"
    have bnd: "a < length h" "b < length (h ! a)" "a' < length h" "b' < length (h ! a')"
      using True by (auto simp: inside_def a_b_a'_b'_def)
    have "max (max m (upd h a b ! a ! b)) (upd (upd h a b) a' b' ! a' ! b') =
          max (max m (upd h a' b' ! a' ! b')) (upd (upd h a' b') a b ! a ! b)"
      using bnd by (auto simp: upd_nth max_def)
    then show ?thesis
      using True bnd upd_commute[OF bnd]
      by (simp add: st bump_inside a_b_a'_b'_def)
  qed
qed


section \<open>Feeding points in any order\<close>

lemma points_fold:
  "(case x of Inl e \<Rightarrow> Inl e | Inr st \<Rightarrow> GenerateHeatmap_points W H mn mx ps st) =
   fold (feed W H mn mx) ps x"
proof (induction ps arbitrary: x)
  case Nil
  then show ?case by (simp split: sum.splits)
next
  case (Cons p ps)
  show ?case
    using Cons.IH[of "feed W H mn mx p x"]
    by (auto simp: feed_def split: sum.splits)
qed

lemma feed_commute: "feed W H mn mx p (feed W H mn mx q x) = feed W H mn mx q (feed W H mn mx p x)"
proof (cases x)
  case (Inl e)
  then show ?thesis by (simp add: feed_def)
next
  case (Inr st)
  show ?thesis
  proof (cases "point_cell W H mn mx p")
    case None
    then show ?thesis by (auto simp: feed_def Inr point_as_cell split: option.splits sum.splits)
  next
    case P: (Some u)
    show ?thesis
    proof (cases "point_cell W H mn mx q")
      case None
      then show ?thesis by (auto simp: feed_def Inr point_as_cell split: option.splits sum.splits)
    next
      case Q: (Some v)
      show ?thesis
      proof (cases u)
        case (Inl e)
        then have "e = UndefinedBehaviour" using P point_cell_error by blast
        then show ?thesis using P Q Inl
          by (auto simp: feed_def Inr point_as_cell split: sum.splits
              dest: bump_error point_cell_error)
      next
        case U: (Inr rc)
        show ?thesis
        proof (cases v)
          case (Inl e)
          then have "e = UndefinedBehaviour" using Q point_cell_error by blast
          then show ?thesis using P Q Inl U
            by (auto simp: feed_def Inr point_as_cell split: sum.splits
                dest: bump_error point_cell_error)
        next
          case V: (Inr rc')
          show ?thesis
            using bump_commute[where rc = rc' and st = st and rc' = rc]
            by (simp add: feed_def Inr point_as_cell P Q U V cong: sum.case_cong)
        qed
      qed
    qed
  qed
qed


section \<open>The running maximum\<close>

lemma Max_cons_fold: "Max (set (m # xs)) = fold max xs (m :: 'a :: linorder)"
  by (rule Max.set_eq_fold)

lemma point_running_max:
  assumes "GenerateHeatmap_point W H mn mx p (h, m) = Inr (h', m')"
  shows "m' = fold max (incremented_value W H mn mx p h) m"
    and "\<exists>m1. GenerateHeatmap_point W H mn mx p (h, m0) = Inr (h', m1)"
  using assms
  by (auto simp: point_as_cell incremented_value_def bump_def max.commute
      split: option.splits sum.splits)

lemma points_running_max:
  assumes "GenerateHeatmap_points W H mn mx ps (h, m) = Inr (h', m')"
  shows "m' = fold max (observed_points W H mn mx ps h) m
       \<and> (\<exists>m1. GenerateHeatmap_points W H mn mx ps (h, m0) = Inr (h', m1))"
  using assms
proof (induction ps arbitrary: h m m0)
  case Nil
  then show ?case by simp
next
  case (Cons p ps)
  from Cons.prems obtain h1 m1 where
    s: "GenerateHeatmap_point W H mn mx p (h, m) = Inr (h1, m1)"
    and t: "GenerateHeatmap_points W H mn mx ps (h1, m1) = Inr (h', m')"
    by (auto split: sum.splits)
  from point_running_max(2)[OF s, of 0] obtain z where
    z: "GenerateHeatmap_point W H mn mx p (h, 0) = Inr (h1, z)" by blast
  from point_running_max(2)[OF s, of m0] obtain z0 where
    z0: "GenerateHeatmap_point W H mn mx p (h, m0) = Inr (h1, z0)" by blast
  from Cons.IH[OF t, of z0] obtain m2 where
    m2: "GenerateHeatmap_points W H mn mx ps (h1, z0) = Inr (h', m2)" by blast
  have "m' = fold max (observed_points W H mn mx ps h1) m1"
    using Cons.IH[OF t] by blast
  then show ?case
    using point_running_max(1)[OF s] z z0 m2 by simp
qed

lemma loop_running_max:
  assumes "GenerateHeatmap_loop W H mn mx N nSamples rng sampleIdx (h, m) = Inr ((h', m'), d)"
    and "0 \<le> sampleIdx"
  shows "m' = fold max (observed_samples W H mn mx N rng [nat sampleIdx..<nat nSamples] h) m"
  using assms
proof (induction W H mn mx N nSamples rng sampleIdx "(h, m)" arbitrary: h m
    rule: GenerateHeatmap_loop.induct)
  case (1 W H mn mx N nSamples rng sampleIdx)
  show ?case
  proof (cases "sampleIdx < nSamples")
    case False
    then show ?thesis using "1.prems" by (simp add: GenerateHeatmap_loop.simps)
  next
    case True
    from "1.prems"(1) True obtain pts h1 m1 where
      pts: "buddhabrotPoints (rng (nat sampleIdx)) N = Inr pts"
      and st1: "GenerateHeatmap_points W H mn mx pts (h, m) = Inr (h1, m1)"
      and rest: "GenerateHeatmap_loop W H mn mx N nSamples rng (sampleIdx + 1) (h1, m1)
                 = Inr ((h', m'), d)"
      by (subst (asm) GenerateHeatmap_loop.simps) (auto split: sum.splits)
    have idx: "[nat sampleIdx..<nat nSamples] = nat sampleIdx # [nat (sampleIdx + 1)..<nat nSamples]"
      using True "1.prems"(2) by (simp add: upt_conv_Cons nat_add_distrib)
    from points_running_max[OF st1, of 0] obtain z where
      m1: "m1 = fold max (observed_points W H mn mx pts h) m"
      and z: "GenerateHeatmap_points W H mn mx pts (h, 0) = Inr (h1, z)" by blast
    have "m' = fold max (observed_samples W H mn mx N rng [nat (sampleIdx + 1)..<nat nSamples] h1) m1"
      using "1.hyps"[OF True pts st1 rest] "1.prems"(2) by simp
    then show ?thesis
      by (simp add: idx pts z m1)
  qed
qed

lemma GenerateHeatmap_running_max:
  assumes "GenerateHeatmap h W H mn mx N nSamples m rng = Inr ((h', m'), d)"
  shows "m' = fold max (GenerateHeatmap_observed h W H mn mx N nSamples rng) m"
  using assms loop_running_max[of W H mn mx N nSamples rng 0 h m h' m' d]
  by (simp add: GenerateHeatmap_def GenerateHeatmap_observed_def split: if_splits)


lemma Max_seen_fold: "Max (set (0 # seen @ xs)) = fold max xs (Max (set ((0::HeatmapType) # seen)))"
  by (simp only: Max_cons_fold fold_append comp_def)

section \<open>Configurations that accumulate nothing\<close>

lemma point_zero_span:
  assumes "r maximum = r minimum \<or> i maximum = i minimum"
    and "GenerateHeatmap_point W H minimum maximum p st = Inr st'"
  shows "st' = st"
  using assms
  by (cases st)
     (auto simp: GenerateHeatmap_point_def rowFromReal_def colFromImaginary_def
        double_sub_def double_round_zero split: if_splits sum.splits)

lemma points_inert:
  assumes "\<And>p st st'. GenerateHeatmap_point W H minimum maximum p st = Inr st' \<Longrightarrow> st' = st"
    and "GenerateHeatmap_points W H minimum maximum ps st = Inr st'"
  shows "st' = st"
  using assms(2)
proof (induction ps arbitrary: st)
  case Nil
  then show ?case by simp
next
  case (Cons p ps)
  then show ?case by (auto split: sum.splits dest: assms(1))
qed

lemma loop_inert:
  assumes "\<And>c pts st st'. buddhabrotPoints c N = Inr pts \<Longrightarrow>
            GenerateHeatmap_points W H minimum maximum pts st = Inr st' \<Longrightarrow> st' = st"
    and "GenerateHeatmap_loop W H minimum maximum N nSamples rng sampleIdx st = Inr (st', d)"
  shows "st' = st \<and> d = max sampleIdx nSamples"
  using assms
proof (induction W H minimum maximum N nSamples rng sampleIdx st
    rule: GenerateHeatmap_loop.induct)
  case (1 W H minimum maximum N nSamples rng sampleIdx st)
  note inert = "1.prems"(1) and run = "1.prems"(2)
  show ?case
  proof (cases "sampleIdx < nSamples")
    case False
    then show ?thesis using run by (simp add: GenerateHeatmap_loop.simps)
  next
    case True
    from run True obtain pts st1 where
      pts: "buddhabrotPoints (rng (nat sampleIdx)) N = Inr pts"
      and st1: "GenerateHeatmap_points W H minimum maximum pts st = Inr st1"
      and rest: "GenerateHeatmap_loop W H minimum maximum N nSamples rng (sampleIdx + 1) st1
                 = Inr (st', d)"
      by (subst (asm) GenerateHeatmap_loop.simps) (auto split: sum.splits)
    have "st1 = st" using inert[OF pts st1] .
    moreover have "st' = st1 \<and> d = max (sampleIdx + 1) nSamples"
      using "1.IH"[OF True pts st1 inert rest] .
    ultimately show ?thesis using True by auto
  qed
qed


lemma point_negative_span:
  "r mx < r mn \<or> i mx < i mn \<Longrightarrow> GenerateHeatmap_point W H mn mx p st = Inr st"
  by (cases st) (auto simp: GenerateHeatmap_point_def)

lemma points_all_rejected:
  assumes "\<And>p st. GenerateHeatmap_point W H mn mx p st = Inr st"
  shows "GenerateHeatmap_points W H mn mx ps st = Inr st"
  by (induction ps arbitrary: st) (simp_all add: assms)

lemma buddhabrotPoints_returns: "0 \<le> N \<Longrightarrow> \<exists>pts. buddhabrotPoints c N = Inr pts"
  by (auto simp: buddhabrotPoints_def split: prod.splits)

lemma buddhabrotPoints_zero: "buddhabrotPoints c 0 = Inr []"
  using loop_stop[of 0 0 "MkComplex 0 0" c "[]"] by (simp add: buddhabrotPoints_def)

lemma loop_returns_unchanged:
  assumes "\<And>c. \<exists>pts. buddhabrotPoints c N = Inr pts
              \<and> (\<forall>st. GenerateHeatmap_points W H mn mx pts st = Inr st)"
  shows "GenerateHeatmap_loop W H mn mx N nSamples rng sampleIdx st
         = Inr (st, max sampleIdx nSamples)"
  using assms
proof (induction W H mn mx N nSamples rng sampleIdx st rule: GenerateHeatmap_loop.induct)
  case (1 W H mn mx N nSamples rng sampleIdx st)
  show ?case
  proof (cases "sampleIdx < nSamples")
    case False
    then show ?thesis by (simp add: GenerateHeatmap_loop.simps)
  next
    case True
    from "1.prems"[of "rng (nat sampleIdx)"] obtain pts where
      pts: "buddhabrotPoints (rng (nat sampleIdx)) N = Inr pts"
      and st: "GenerateHeatmap_points W H mn mx pts st = Inr st" by blast
    have "GenerateHeatmap_loop W H mn mx N nSamples rng (sampleIdx + 1) st
          = Inr (st, max (sampleIdx + 1) nSamples)"
      using "1.IH"[OF True pts st] "1.prems" by blast
    then show ?thesis
      using True pts st by (subst GenerateHeatmap_loop.simps) (simp add: max_def)
  qed
qed

lemma points_error:
  "GenerateHeatmap_points W H mn mx ps st = Inl e \<Longrightarrow> e = UndefinedBehaviour"
proof (induction ps arbitrary: st)
  case Nil
  then show ?case by simp
next
  case (Cons p ps)
  show ?case
  proof (cases "GenerateHeatmap_point W H mn mx p st")
    case (Inl e')
    then have "e' = e" using Cons.prems by simp
    moreover have "e' = UndefinedBehaviour"
      using Inl by (auto simp: point_as_cell split: option.splits sum.splits
          dest: point_cell_error bump_error)
    ultimately show ?thesis by simp
  next
    case (Inr st')
    then show ?thesis using Cons by simp
  qed
qed

lemma loop_error:
  assumes "0 \<le> N"
    and "GenerateHeatmap_loop W H mn mx N nSamples rng sampleIdx st = Inl e"
  shows "e = UndefinedBehaviour"
  using assms
proof (induction W H mn mx N nSamples rng sampleIdx st rule: GenerateHeatmap_loop.induct)
  case (1 W H mn mx N nSamples rng sampleIdx st)
  have lt: "sampleIdx < nSamples"
    using "1.prems"(2) by (subst (asm) GenerateHeatmap_loop.simps) (simp split: if_splits)
  from buddhabrotPoints_returns[OF "1.prems"(1)] obtain pts where
    pts: "buddhabrotPoints (rng (nat sampleIdx)) N = Inr pts" by blast
  show ?case
  proof (cases "GenerateHeatmap_points W H mn mx pts st")
    case (Inl e')
    then have "e' = e"
      using "1.prems"(2) lt pts by (subst (asm) GenerateHeatmap_loop.simps) simp
    then show ?thesis using points_error[OF Inl] by simp
  next
    case (Inr st')
    then have "GenerateHeatmap_loop W H mn mx N nSamples rng (sampleIdx + 1) st' = Inl e"
      using "1.prems"(2) lt pts by (subst (asm) GenerateHeatmap_loop.simps) simp
    then show ?thesis using "1.IH"[OF lt pts Inr "1.prems"(1)] by simp
  qed
qed

section \<open>Normalisation by a zero maximum\<close>

lemma colorFromHeatmap_zero: "colorFromHeatmap v 0 c = Inl UndefinedBehaviour"
  by (simp add: colorFromHeatmap_def)

lemma scale_cell_zero: "scale_cell 0 h row col = Inl UndefinedBehaviour"
  by (simp add: scale_cell_def colorFromHeatmap_zero)

lemma main_scale_zero: "cells \<noteq> [] \<Longrightarrow> main_scale 0 cells hs = Inl UndefinedBehaviour"
  by (cases cells; cases hs) (auto simp: scale_cell_zero)


section \<open>Claims on the accumulator, the driver and the normalizer\<close>

lemma trajectory_half_one:
  "buddhabrotPoints (MkComplex (1 / 2) 1) 5 = Inr [MkComplex (1 / 2) 1, MkComplex (- (1 / 4)) 2]"
  by code_simp

lemma row_of_quarter: "rowFromReal (- (1 / 4)) (- 2) 1 7000 = Inr 4083"
  by code_simp

lemma col_of_two: "colFromImaginary 2 (- 2) 2 7000 = Inr 7000"
  by code_simp

lemma row_of_one: "rowFromReal 1 (- 2) 1 7000 = Inr 7000"
  by code_simp

lemma small_run_out_of_bounds:
  "GenerateHeatmap (replicate 4 (replicate 4 0)) 4 4 (MkComplex (- 2) (- 2)) (MkComplex 1 2)
     5 1 0 (\<lambda>k. MkComplex (1 / 2) 1) = Inl UndefinedBehaviour"
  by code_simp

text \<open>
  Claim C1: every point that passes the window test is mapped to a row in
  \<open>[0, imageHeight)\<close> and a column in \<open>[0, imageWidth)\<close>, so that the increment is in
  bounds. The code does not keep it: the test accepts a point on the upper edge of the
  window, and such a point is mapped to the index \<open>imageWidth\<close> (or \<open>imageHeight\<close>). With
  the constants of \<open>main\<close> the candidate \<open>0.5 + i\<close> escapes at its second iterate
  \<open>-0.25 + 2i\<close>, whose imaginary part is \<open>MAXIMUM.i\<close>: it passes the test, its column is
  7000, and the increment of \<open>o_heatmap[4083][7000]\<close> is outside the row of 7000
  cells. The same candidate on a \<open>4 \<times> 4\<close> image makes the whole pass undefined.
  Likewise a real part equal to \<open>MAXIMUM.r\<close> is mapped to the row 7000.
\<close>

theorem accepted_point_out_of_bounds:
  "buddhabrotPoints (MkComplex (1 / 2) 1) (RED_ITERS main_constants)
     = Inr [MkComplex (1 / 2) 1, MkComplex (- (1 / 4)) 2]
   \<and> point_cell (IMAGE_WIDTH main_constants) (IMAGE_HEIGHT main_constants)
        (MINIMUM main_constants) (MAXIMUM main_constants) (MkComplex (- (1 / 4)) 2)
     = Some (Inr (4083, 7000))
   \<and> GenerateHeatmap_point (IMAGE_WIDTH main_constants) (IMAGE_HEIGHT main_constants)
        (MINIMUM main_constants) (MAXIMUM main_constants) (MkComplex (- (1 / 4)) 2)
        (replicate 7000 (replicate 7000 0), 0)
     = Inl UndefinedBehaviour
   \<and> GenerateHeatmap (replicate 4 (replicate 4 0)) 4 4 (MkComplex (- 2) (- 2)) (MkComplex 1 2)
        5 1 0 (\<lambda>k. MkComplex (1 / 2) 1)
     = Inl UndefinedBehaviour
   \<and> rowFromReal (r (MAXIMUM main_constants)) (r (MINIMUM main_constants))
        (r (MAXIMUM main_constants)) (IMAGE_HEIGHT main_constants)
     = Inr 7000"
proof -
  have c: "point_cell 7000 7000 (MkComplex (- 2) (- 2)) (MkComplex 1 2) (MkComplex (- (1 / 4)) 2)
      = Some (Inr (4083, 7000))"
    by (simp add: point_cell_def row_of_quarter col_of_two)
  have "\<not> inside (replicate 7000 (replicate 7000 0)) (4083, 7000)"
    by (simp add: inside_def)
  then have "GenerateHeatmap_point 7000 7000 (MkComplex (- 2) (- 2)) (MkComplex 1 2)
      (MkComplex (- (1 / 4)) 2) (replicate 7000 (replicate 7000 0), 0) = Inl UndefinedBehaviour"
    by (simp add: point_as_cell c bump_outside)
  then show ?thesis
    using c trajectory_half_one small_run_out_of_bounds row_of_one
    by (simp add: main_constants_def)
qed

text \<open>
  Claim C4: for \<open>0 \<le> v \<le> m\<close> and \<open>m > 0\<close> the normalizer returns
  \<open>floor(v * ceiling / m)\<close>, and a cell with \<open>v = m\<close> is normalized to the ceiling. The
  code does not keep it: it multiplies \<open>v\<close> by the rounded quotient \<open>255.0 / m\<close>. For
  \<open>v = m = 25\<close> the quotient is rounded below \<open>10.2\<close>, the product is rounded to
  \<open>255 - 2\<^sup>-\<^sup>4\<^sup>5\<close>, and the conversion to \<open>int\<close> gives 254.
\<close>

theorem maximum_cell_normalizes_to_254:
  "colorFromHeatmap 25 25 255 = Inr 254"
  by code_simp

lemma small_image_bounded:
  "main_generate small_image (\<lambda>k. MkComplex 0 0) (\<lambda>k. MkComplex 0 0) (\<lambda>k. MkComplex 0 0)
     = Inr ([[0, 0], [0, 0]], [[0, 0], [0, 0]], [[0, 0], [0, 0]], 0)"
  by code_simp

lemma small_image_bounded_scaled:
  "main_heatmaps small_image (\<lambda>k. MkComplex 0 0) (\<lambda>k. MkComplex 0 0) (\<lambda>k. MkComplex 0 0)
     = Inl UndefinedBehaviour"
  by code_simp

lemma small_image_minus_one:
  "main_generate small_image (\<lambda>k. MkComplex (- 1) 0) (\<lambda>k. MkComplex (- 1) 0)
     (\<lambda>k. MkComplex (- 1) 0)
     = Inr ([[0, 0], [0, 0]], [[0, 0], [0, 0]], [[0, 0], [0, 0]], 0)"
  by code_simp

text \<open>
  Claim C5, as stated: when the global maximum is still zero after all sampling, the
  condition is reported to the caller as an error and the division by the global maximum
  is not performed. It fails: on the small image with the candidate \<open>0\<close>, which never
  escapes, the three passes end with the maximum zero, nothing is reported, and the
  scaling loop calls \<open>colorFromHeatmap\<close> with the maximum zero, where the division by
  zero makes the conversion to \<open>int\<close> undefined.
\<close>

theorem zero_maximum_counterexample:
  "main_generate small_image (\<lambda>k. MkComplex 0 0) (\<lambda>k. MkComplex 0 0) (\<lambda>k. MkComplex 0 0)
     = Inr ([[0, 0], [0, 0]], [[0, 0], [0, 0]], [[0, 0], [0, 0]], 0)
   \<and> main_heatmaps small_image (\<lambda>k. MkComplex 0 0) (\<lambda>k. MkComplex 0 0)
        (\<lambda>k. MkComplex 0 0)
     = Inl UndefinedBehaviour
   \<and> colorFromHeatmap 0 0 255 = Inl UndefinedBehaviour"
  using small_image_bounded small_image_bounded_scaled colorFromHeatmap_zero by simp

text \<open>
  Claim C5, amended: the code has no check of the global maximum. When the three passes
  end with the maximum zero on an image with at least one cell, \<open>main\<close> goes on to the
  scaling loop, which divides by the zero maximum in its first call of
  \<open>colorFromHeatmap\<close>; the behaviour is then undefined, and no error is reported.
\<close>

theorem zero_maximum_not_surfaced:
  assumes "main_generate k rngRed rngGreen rngBlue = Inr (red, green, blue, 0)"
    and "0 < IMAGE_HEIGHT k" and "0 < IMAGE_WIDTH k"
  shows "main_heatmaps k rngRed rngGreen rngBlue = Inl UndefinedBehaviour"
proof -
  have "[0..<nat (IMAGE_HEIGHT k)] \<noteq> []" "[0..<nat (IMAGE_WIDTH k)] \<noteq> []"
    using assms(2,3) by simp_all
  then have "List.product [0..<nat (IMAGE_HEIGHT k)] [0..<nat (IMAGE_WIDTH k)] \<noteq> []"
    by (cases "[0..<nat (IMAGE_HEIGHT k)]"; cases "[0..<nat (IMAGE_WIDTH k)]") auto
  then show ?thesis
    using assms(1) by (simp add: main_heatmaps_def main_scale_zero)
qed

theorem zero_maximum_not_surfaced_witness:
  "main_generate small_image (\<lambda>k. MkComplex (- 1) 0) (\<lambda>k. MkComplex (- 1) 0)
     (\<lambda>k. MkComplex (- 1) 0)
     = Inr ([[0, 0], [0, 0]], [[0, 0], [0, 0]], [[0, 0], [0, 0]], 0)
   \<and> 0 < IMAGE_HEIGHT small_image \<and> 0 < IMAGE_WIDTH small_image
   \<and> main_heatmaps small_image (\<lambda>k. MkComplex (- 1) 0) (\<lambda>k. MkComplex (- 1) 0)
        (\<lambda>k. MkComplex (- 1) 0)
     = Inl UndefinedBehaviour"
proof -
  have h: "0 < IMAGE_HEIGHT small_image" and w: "0 < IMAGE_WIDTH small_image"
    by (simp_all add: small_image_def)
  show ?thesis
    using zero_maximum_not_surfaced[OF small_image_minus_one h w] small_image_minus_one h w
    by simp
qed

lemma zero_bound_run:
  "GenerateHeatmap [[0, 0], [0, 0]] 2 2 (MkComplex (- 2) (- 2)) (MkComplex 1 2) 0 1 0
     (\<lambda>k. MkComplex 0 0) = Inr (([[0, 0], [0, 0]], 0), 1)"
  by code_simp

text \<open>
  Claim C6, as stated: a configuration with a window of zero or negative span, a
  non-positive iteration bound or a non-positive sample count is rejected before any
  sampling, so that no sample is drawn and nothing is accumulated. It fails: nothing
  validates the configuration. With the iteration bound 0 and the sample count 1 the pass
  returns normally and has drawn one candidate.
\<close>

theorem invalid_configuration_counterexample:
  "(0::int) \<le> 0
   \<and> GenerateHeatmap [[0, 0], [0, 0]] 2 2 (MkComplex (- 2) (- 2)) (MkComplex 1 2) 0 1 0
        (\<lambda>k. MkComplex 0 0)
     = Inr (([[0, 0], [0, 0]], 0), 1)"
  using zero_bound_run by simp

lemma nothing_sampled_run:
  "GenerateHeatmap [[1, 0], [0, 3]] 2 2 (MkComplex (- 2) (- 2)) (MkComplex 1 2) 3 0 3
     (\<lambda>k. MkComplex (1 / 2) 1) = Inr (([[1, 0], [0, 3]], 3), 0)"
  by code_simp

lemma zero_span_run:
  "GenerateHeatmap [[1, 0], [0, 3]] 2 2 (MkComplex 0 0) (MkComplex 0 0) 3 1 3
     (\<lambda>k. MkComplex (1 / 2) 1) = Inr (([[1, 0], [0, 3]], 3), 1)"
  by code_simp

lemma zero_span_undefined_run:
  "GenerateHeatmap [[1, 0], [0, 3]] 2 2 (MkComplex 0 (- 2)) (MkComplex 0 2) 3 1 3
     (\<lambda>k. MkComplex 0 2) = Inl UndefinedBehaviour"
  by code_simp

text \<open>
  Claim C6, amended: no configuration is rejected, and candidates are drawn whenever the
  sample count is positive. What the channel pass does on each invalid configuration,
  from any heatmap and global maximum:
  \<^item> with a non-positive sample count it returns at once: no candidate is drawn, and the
    heatmap and the global maximum are unchanged;
  \<^item> with the iteration bound zero it draws all \<open>nSamples\<close> candidates, every trajectory is
    empty, and the heatmap and the global maximum are unchanged;
  \<^item> with a negative iteration bound and a positive sample count the first candidate is
    drawn and \<open>buddhabrotPoints\<close> throws \<open>std::length_error\<close>;
  \<^item> with a window of zero span on an axis (and a bound that is not negative) it either
    returns the heatmap and the global maximum unchanged after \<open>max(0, nSamples)\<close> draws, or
    a trajectory point falls into the degenerate window, the mapper divides by the zero
    span, and the behaviour is undefined;
  \<^item> with a window of negative span the construction of the uniform distribution is
    undefined; the loop over the samples itself, on whatever candidates, accepts no point
    and, for a bound that is not negative, returns the heatmap and the global maximum
    unchanged after \<open>max(0, nSamples)\<close> draws.
  The first three items are for a window whose spans are not negative.
\<close>

theorem invalid_configuration_not_rejected:
  "(r mn \<le> r mx \<and> i mn \<le> i mx \<and> nSamples \<le> 0 \<longrightarrow>
      GenerateHeatmap h W H mn mx N nSamples m rng = Inr ((h, m), 0))
   \<and> (r mn \<le> r mx \<and> i mn \<le> i mx \<and> 0 < nSamples \<and> N = 0 \<longrightarrow>
      GenerateHeatmap h W H mn mx N nSamples m rng = Inr ((h, m), nSamples))
   \<and> (r mn \<le> r mx \<and> i mn \<le> i mx \<and> 0 < nSamples \<and> N < 0 \<longrightarrow>
      GenerateHeatmap h W H mn mx N nSamples m rng = Inl length_error)
   \<and> (r mn \<le> r mx \<and> i mn \<le> i mx \<and> (r mx = r mn \<or> i mx = i mn) \<and> 0 \<le> N \<longrightarrow>
      GenerateHeatmap h W H mn mx N nSamples m rng = Inr ((h, m), max 0 nSamples)
      \<or> GenerateHeatmap h W H mn mx N nSamples m rng = Inl UndefinedBehaviour)
   \<and> ((r mx < r mn \<or> i mx < i mn) \<longrightarrow>
      GenerateHeatmap h W H mn mx N nSamples m rng = Inl UndefinedBehaviour
      \<and> (0 \<le> N \<longrightarrow> GenerateHeatmap_loop W H mn mx N nSamples rng 0 (h, m)
                      = Inr ((h, m), max 0 nSamples)))"
proof (intro conjI impI)
  assume "r mn \<le> r mx \<and> i mn \<le> i mx \<and> nSamples \<le> 0"
  then show "GenerateHeatmap h W H mn mx N nSamples m rng = Inr ((h, m), 0)"
    by (simp add: GenerateHeatmap_def GenerateHeatmap_loop.simps)
next
  assume a: "r mn \<le> r mx \<and> i mn \<le> i mx \<and> 0 < nSamples \<and> N = 0"
  have "GenerateHeatmap_loop W H mn mx 0 nSamples rng 0 (h, m) = Inr ((h, m), max 0 nSamples)"
    by (rule loop_returns_unchanged) (simp add: buddhabrotPoints_zero)
  then show "GenerateHeatmap h W H mn mx N nSamples m rng = Inr ((h, m), nSamples)"
    using a by (simp add: GenerateHeatmap_def)
next
  assume a: "r mn \<le> r mx \<and> i mn \<le> i mx \<and> 0 < nSamples \<and> N < 0"
  then have "buddhabrotPoints (rng (nat 0)) N = Inl length_error"
    by (simp add: buddhabrotPoints_def)
  then have "GenerateHeatmap_loop W H mn mx N nSamples rng 0 (h, m) = Inl length_error"
    using a by (subst GenerateHeatmap_loop.simps) simp
  then show "GenerateHeatmap h W H mn mx N nSamples m rng = Inl length_error"
    using a by (simp add: GenerateHeatmap_def)
next
  assume a: "r mn \<le> r mx \<and> i mn \<le> i mx \<and> (r mx = r mn \<or> i mx = i mn) \<and> 0 \<le> N"
  then have g: "GenerateHeatmap h W H mn mx N nSamples m rng
      = GenerateHeatmap_loop W H mn mx N nSamples rng 0 (h, m)"
    by (simp add: GenerateHeatmap_def)
  have z: "r mx = r mn \<or> i mx = i mn" using a by simp
  show "GenerateHeatmap h W H mn mx N nSamples m rng = Inr ((h, m), max 0 nSamples)
      \<or> GenerateHeatmap h W H mn mx N nSamples m rng = Inl UndefinedBehaviour"
  proof (cases "GenerateHeatmap_loop W H mn mx N nSamples rng 0 (h, m)")
    case (Inl e)
    then show ?thesis using loop_error[OF _ Inl] a g by simp
  next
    case (Inr res)
    obtain st' d where res: "res = (st', d)" by (cases res)
    have "st' = (h, m) \<and> d = max 0 nSamples"
    proof (rule loop_inert)
      show "GenerateHeatmap_loop W H mn mx N nSamples rng 0 (h, m) = Inr (st', d)"
        using Inr res by simp
    next
      fix c pts st st1
      assume "GenerateHeatmap_points W H mn mx pts st = Inr st1"
      then show "st1 = st"
        by (rule points_inert[rotated]) (rule point_zero_span[OF z])
    qed
    then show ?thesis using Inr res g by simp
  qed
next
  assume a: "r mx < r mn \<or> i mx < i mn"
  then show "GenerateHeatmap h W H mn mx N nSamples m rng = Inl UndefinedBehaviour"
    by (simp add: GenerateHeatmap_def)
next
  assume a: "r mx < r mn \<or> i mx < i mn" and N: "0 \<le> N"
  show "GenerateHeatmap_loop W H mn mx N nSamples rng 0 (h, m) = Inr ((h, m), max 0 nSamples)"
  proof (rule loop_returns_unchanged)
    fix c
    from buddhabrotPoints_returns[OF N] obtain pts where "buddhabrotPoints c N = Inr pts"
      by blast
    moreover have "\<forall>st. GenerateHeatmap_points W H mn mx pts st = Inr st"
      using points_all_rejected[OF point_negative_span[OF a]] by blast
    ultimately show "\<exists>pts. buddhabrotPoints c N = Inr pts
        \<and> (\<forall>st. GenerateHeatmap_points W H mn mx pts st = Inr st)" by blast
  qed
qed

theorem invalid_configuration_not_rejected_witness:
  "GenerateHeatmap [[1, 0], [0, 3]] 2 2 (MkComplex (- 2) (- 2)) (MkComplex 1 2) 3 0 3
     (\<lambda>k. MkComplex (1 / 2) 1) = Inr (([[1, 0], [0, 3]], 3), 0)
   \<and> GenerateHeatmap [[1, 0], [0, 3]] 2 2 (MkComplex (- 2) (- 2)) (MkComplex 1 2) 0 2 3
     (\<lambda>k. MkComplex (1 / 2) 1) = Inr (([[1, 0], [0, 3]], 3), 2)
   \<and> GenerateHeatmap [[1, 0], [0, 3]] 2 2 (MkComplex (- 2) (- 2)) (MkComplex 1 2) (- 1) 1 3
     (\<lambda>k. MkComplex (1 / 2) 1) = Inl length_error
   \<and> GenerateHeatmap [[1, 0], [0, 3]] 2 2 (MkComplex 0 0) (MkComplex 0 0) 3 1 3
     (\<lambda>k. MkComplex (1 / 2) 1) = Inr (([[1, 0], [0, 3]], 3), max 0 1)
   \<and> GenerateHeatmap [[1, 0], [0, 3]] 2 2 (MkComplex 0 (- 2)) (MkComplex 0 2) 3 1 3
     (\<lambda>k. MkComplex 0 2) = Inl UndefinedBehaviour
   \<and> GenerateHeatmap [[1, 0], [0, 3]] 2 2 (MkComplex 1 2) (MkComplex (- 2) (- 2)) 3 2 3
     (\<lambda>k. MkComplex (1 / 2) 1) = Inl UndefinedBehaviour
   \<and> GenerateHeatmap_loop 2 2 (MkComplex 1 2) (MkComplex (- 2) (- 2)) 3 2
     (\<lambda>k. MkComplex (1 / 2) 1) 0 ([[1, 0], [0, 3]], 3) = Inr (([[1, 0], [0, 3]], 3), max 0 2)"
proof -
  note t = invalid_configuration_not_rejected[where h = "[[1, 0], [0, 3]]" and W = 2
      and H = 2 and m = 3]
  have 1: "GenerateHeatmap [[1, 0], [0, 3]] 2 2 (MkComplex (- 2) (- 2)) (MkComplex 1 2) 3 0 3
     (\<lambda>k. MkComplex (1 / 2) 1) = Inr (([[1, 0], [0, 3]], 3), 0)"
    using t[where mn = "MkComplex (- 2) (- 2)" and mx = "MkComplex 1 2" and N = 3
        and nSamples = 0 and rng = "\<lambda>k. MkComplex (1 / 2) 1", THEN conjunct1]
    by simp
  have 2: "GenerateHeatmap [[1, 0], [0, 3]] 2 2 (MkComplex (- 2) (- 2)) (MkComplex 1 2) 0 2 3
     (\<lambda>k. MkComplex (1 / 2) 1) = Inr (([[1, 0], [0, 3]], 3), 2)"
    using t[where mn = "MkComplex (- 2) (- 2)" and mx = "MkComplex 1 2" and N = 0
        and nSamples = 2 and rng = "\<lambda>k. MkComplex (1 / 2) 1",
        THEN conjunct2, THEN conjunct1]
    by simp
  have 3: "GenerateHeatmap [[1, 0], [0, 3]] 2 2 (MkComplex (- 2) (- 2)) (MkComplex 1 2) (- 1) 1 3
     (\<lambda>k. MkComplex (1 / 2) 1) = Inl length_error"
    using t[where mn = "MkComplex (- 2) (- 2)" and mx = "MkComplex 1 2" and N = "- 1"
        and nSamples = 1 and rng = "\<lambda>k. MkComplex (1 / 2) 1",
        THEN conjunct2, THEN conjunct2, THEN conjunct1]
    by simp
  have 4: "GenerateHeatmap [[1, 0], [0, 3]] 2 2 (MkComplex 0 0) (MkComplex 0 0) 3 1 3
     (\<lambda>k. MkComplex (1 / 2) 1) = Inr (([[1, 0], [0, 3]], 3), max 0 1)"
    using t[where mn = "MkComplex 0 0" and mx = "MkComplex 0 0" and N = 3
        and nSamples = 1 and rng = "\<lambda>k. MkComplex (1 / 2) 1",
        THEN conjunct2, THEN conjunct2, THEN conjunct2, THEN conjunct1]
      zero_span_run
    by simp
  have 5: "GenerateHeatmap [[1, 0], [0, 3]] 2 2 (MkComplex 0 (- 2)) (MkComplex 0 2) 3 1 3
     (\<lambda>k. MkComplex 0 2) = Inl UndefinedBehaviour"
    using t[where mn = "MkComplex 0 (- 2)" and mx = "MkComplex 0 2" and N = 3
        and nSamples = 1 and rng = "\<lambda>k. MkComplex 0 2",
        THEN conjunct2, THEN conjunct2, THEN conjunct2, THEN conjunct1]
      zero_span_undefined_run
    by simp
  have 6: "GenerateHeatmap [[1, 0], [0, 3]] 2 2 (MkComplex 1 2) (MkComplex (- 2) (- 2)) 3 2 3
       (\<lambda>k. MkComplex (1 / 2) 1) = Inl UndefinedBehaviour
     \<and> GenerateHeatmap_loop 2 2 (MkComplex 1 2) (MkComplex (- 2) (- 2)) 3 2
       (\<lambda>k. MkComplex (1 / 2) 1) 0 ([[1, 0], [0, 3]], 3)
       = Inr (([[1, 0], [0, 3]], 3), max 0 2)"
    using t[where mn = "MkComplex 1 2" and mx = "MkComplex (- 2) (- 2)" and N = 3
        and nSamples = 2 and rng = "\<lambda>k. MkComplex (1 / 2) 1",
        THEN conjunct2, THEN conjunct2, THEN conjunct2, THEN conjunct2]
    by simp
  show ?thesis
    by (intro conjI) (rule 1 2 3 4 5 6[THEN conjunct1] 6[THEN conjunct2])+
qed

lemma two_points_fed:
  "GenerateHeatmap_points 2 2 (MkComplex (- 2) (- 2)) (MkComplex 1 2)
     [MkComplex (1 / 2) (3 / 2), MkComplex (- 2) 0] ([[0, 0], [0, 0]], 0)
   = Inr ([[0, 1], [0, 1]], 1)"
  by code_simp

text \<open>
  Claim C7: accumulation does not depend on the order of the points. Feeding two
  orderings of the same multiset of points through the loop body (window test, coordinate
  mapping, cell increment, update of the global maximum) from the same heatmap and global
  maximum, in particular from a fresh heatmap and the maximum zero, gives the same
  heatmap and the same global maximum.
\<close>

theorem accumulation_order_independent:
  assumes "mset ps = mset qs"
  shows "GenerateHeatmap_points W H mn mx ps st = GenerateHeatmap_points W H mn mx qs st"
proof -
  have "fold (feed W H mn mx) ps = fold (feed W H mn mx) qs"
    by (rule fold_multiset_equiv[OF _ assms]) (auto simp: fun_eq_iff feed_commute)
  then show ?thesis
    using points_fold[where x = "Inr st" and ps = ps and W = W and H = H and mn = mn and mx = mx]
      points_fold[where x = "Inr st" and ps = qs and W = W and H = H and mn = mn and mx = mx]
    by simp
qed

theorem accumulation_order_independent_witness:
  "mset [MkComplex (1 / 2) (3 / 2), MkComplex (- 2) 0]
     = mset [MkComplex (- 2) 0, MkComplex (1 / 2) (3 / 2)]
   \<and> GenerateHeatmap_points 2 2 (MkComplex (- 2) (- 2)) (MkComplex 1 2)
        [MkComplex (- 2) 0, MkComplex (1 / 2) (3 / 2)] ([[0, 0], [0, 0]], 0)
     = Inr ([[0, 1], [0, 1]], 1)"
proof -
  have m: "mset [MkComplex (1 / 2) (3 / 2), MkComplex (- 2) 0]
     = mset [MkComplex (- 2) 0, MkComplex (1 / 2) (3 / 2)]"
    by simp
  show ?thesis
    using accumulation_order_independent[OF m, of 2 2 "MkComplex (- 2) (- 2)" "MkComplex 1 2"
        "([[0, 0], [0, 0]], 0)"] two_points_fed m
    by simp
qed

lemma small_image_run:
  "main_generate small_image (\<lambda>k. MkComplex (1 / 2) (3 / 2)) (\<lambda>k. MkComplex (1 / 2) (3 / 2))
     (\<lambda>k. MkComplex (- 2) 0)
     = Inr ([[0, 0], [0, 2]], [[0, 0], [0, 2]], [[0, 2], [0, 0]], 2)"
  by code_simp

lemma small_image_observed:
  "main_observed small_image (\<lambda>k. MkComplex (1 / 2) (3 / 2)) (\<lambda>k. MkComplex (1 / 2) (3 / 2))
     (\<lambda>k. MkComplex (- 2) 0) = [1, 2, 1, 2, 1, 2]"
  by code_simp

lemma one_point_fed:
  "GenerateHeatmap_point 2 2 (MkComplex (- 2) (- 2)) (MkComplex 1 2) (MkComplex (1 / 2) (3 / 2))
     ([[0, 0], [0, 1]], 1) = Inr ([[0, 0], [0, 2]], 2)"
  by code_simp

lemma one_point_value:
  "incremented_value 2 2 (MkComplex (- 2) (- 2)) (MkComplex 1 2) (MkComplex (1 / 2) (3 / 2))
     [[0, 0], [0, 1]] = [2]"
  by code_simp

lemma two_points_fed_later:
  "GenerateHeatmap_points 2 2 (MkComplex (- 2) (- 2)) (MkComplex 1 2)
     [MkComplex (1 / 2) (3 / 2), MkComplex (- 2) 0] ([[0, 0], [0, 1]], 1)
   = Inr ([[0, 1], [0, 2]], 2)"
  by code_simp

lemma two_points_values:
  "observed_points 2 2 (MkComplex (- 2) (- 2)) (MkComplex 1 2)
     [MkComplex (1 / 2) (3 / 2), MkComplex (- 2) 0] [[0, 0], [0, 1]] = [2, 1]"
  by code_simp

lemma later_pass:
  "GenerateHeatmap [[0, 0], [0, 1]] 2 2 (MkComplex (- 2) (- 2)) (MkComplex 1 2) 3 2 1
     (\<lambda>k. MkComplex (1 / 2) (3 / 2)) = Inr (([[0, 0], [0, 3]], 3), 2)"
  by code_simp

lemma later_pass_values:
  "GenerateHeatmap_observed [[0, 0], [0, 1]] 2 2 (MkComplex (- 2) (- 2)) (MkComplex 1 2) 3 2
     (\<lambda>k. MkComplex (1 / 2) (3 / 2)) = [2, 3]"
  by code_simp

text \<open>
  Claim C9: the global maximum that the three channel passes share is zero before any
  increment, and at every step during and after the passes it is the maximum of the cell
  values that the completed increments have produced, in whichever heatmap. Stated as an
  invariant, with \<open>seen\<close> the values produced by all increments completed so far, in any
  heatmap: when the global maximum is the maximum of zero and \<open>seen\<close>, it is again the
  maximum of zero and of all values produced so far
  \<^item> after the loop body has run for one more point, from any heatmap,
  \<^item> after the loop over any list of points (any part of a trajectory), from any heatmap,
  \<^item> after a whole channel pass of any sample count, from any heatmap;
  and for \<open>main\<close>, which starts the first pass with the maximum zero, the final
  \<open>maxHeatmapValue\<close> is the maximum of zero and of the values produced by the increments
  of the red, the green and the blue pass.
\<close>

theorem global_maximum_is_running_maximum:
  "(m = Max (set (0 # seen)) \<and> GenerateHeatmap_point W H mn mx p (h, m) = Inr (h1, m1) \<longrightarrow>
      m1 = Max (set (0 # seen @ incremented_value W H mn mx p h)))
   \<and> (m = Max (set (0 # seen)) \<and> GenerateHeatmap_points W H mn mx ps (h, m) = Inr (h2, m2) \<longrightarrow>
      m2 = Max (set (0 # seen @ observed_points W H mn mx ps h)))
   \<and> (m = Max (set (0 # seen))
       \<and> GenerateHeatmap h W H mn mx N nSamples m rng = Inr ((h3, m3), d) \<longrightarrow>
      m3 = Max (set (0 # seen @ GenerateHeatmap_observed h W H mn mx N nSamples rng)))
   \<and> (main_generate k rngRed rngGreen rngBlue = Inr (red, green, blue, m4) \<longrightarrow>
      m4 = Max (set (0 # main_observed k rngRed rngGreen rngBlue)))"
proof (intro conjI impI)
  assume "m = Max (set (0 # seen)) \<and> GenerateHeatmap_point W H mn mx p (h, m) = Inr (h1, m1)"
  then have e: "m = Max (set (0 # seen))"
    and s: "GenerateHeatmap_point W H mn mx p (h, m) = Inr (h1, m1)" by blast+
  show "m1 = Max (set (0 # seen @ incremented_value W H mn mx p h))"
    unfolding Max_seen_fold e[symmetric] by (rule point_running_max(1)[OF s])
next
  assume "m = Max (set (0 # seen)) \<and> GenerateHeatmap_points W H mn mx ps (h, m) = Inr (h2, m2)"
  then have e: "m = Max (set (0 # seen))"
    and s: "GenerateHeatmap_points W H mn mx ps (h, m) = Inr (h2, m2)" by blast+
  show "m2 = Max (set (0 # seen @ observed_points W H mn mx ps h))"
    unfolding Max_seen_fold e[symmetric] using points_running_max[OF s] by blast
next
  assume "m = Max (set (0 # seen))
       \<and> GenerateHeatmap h W H mn mx N nSamples m rng = Inr ((h3, m3), d)"
  then have e: "m = Max (set (0 # seen))"
    and s: "GenerateHeatmap h W H mn mx N nSamples m rng = Inr ((h3, m3), d)" by blast+
  show "m3 = Max (set (0 # seen @ GenerateHeatmap_observed h W H mn mx N nSamples rng))"
    unfolding Max_seen_fold e[symmetric] by (rule GenerateHeatmap_running_max[OF s])
next
  assume a: "main_generate k rngRed rngGreen rngBlue = Inr (red, green, blue, m4)"
  define fresh where "fresh = replicate (nat (IMAGE_HEIGHT k)) (replicate (nat (IMAGE_WIDTH k)) (0 :: HeatmapType))"
  have al: "AllocHeatmap (IMAGE_WIDTH k) (IMAGE_HEIGHT k) = Inr fresh"
    using a by (auto simp: main_generate_def AllocHeatmap_def fresh_def split: if_splits)
  from a obtain max1 max2 d1 d2 d3 where
    r: "GenerateHeatmap fresh (IMAGE_WIDTH k) (IMAGE_HEIGHT k) (MINIMUM k) (MAXIMUM k)
          (RED_ITERS k) (SAMPLE_COUNT k) 0 rngRed = Inr ((red, max1), d1)"
    and g: "GenerateHeatmap fresh (IMAGE_WIDTH k) (IMAGE_HEIGHT k) (MINIMUM k) (MAXIMUM k)
          (GREEN_ITERS k) (SAMPLE_COUNT k) max1 rngGreen = Inr ((green, max2), d2)"
    and b: "GenerateHeatmap fresh (IMAGE_WIDTH k) (IMAGE_HEIGHT k) (MINIMUM k) (MAXIMUM k)
          (BLUE_ITERS k) (SAMPLE_COUNT k) max2 rngBlue = Inr ((blue, m4), d3)"
    unfolding main_generate_def al by (auto split: sum.splits)
  show "m4 = Max (set (0 # main_observed k rngRed rngGreen rngBlue))"
    unfolding Max_cons_fold main_observed_def Let_def fresh_def[symmetric] fold_append comp_def
    using GenerateHeatmap_running_max[OF r] GenerateHeatmap_running_max[OF g]
      GenerateHeatmap_running_max[OF b] by simp
qed

theorem global_maximum_is_running_maximum_witness:
  "(1 :: HeatmapType) = Max (set (0 # [1]))
   \<and> GenerateHeatmap_point 2 2 (MkComplex (- 2) (- 2)) (MkComplex 1 2) (MkComplex (1 / 2) (3 / 2))
        ([[0, 0], [0, 1]], 1) = Inr ([[0, 0], [0, 2]], 2)
   \<and> (2 :: HeatmapType) = Max (set (0 # [1] @ incremented_value 2 2 (MkComplex (- 2) (- 2))
        (MkComplex 1 2) (MkComplex (1 / 2) (3 / 2)) [[0, 0], [0, 1]]))
   \<and> GenerateHeatmap_points 2 2 (MkComplex (- 2) (- 2)) (MkComplex 1 2)
        [MkComplex (1 / 2) (3 / 2), MkComplex (- 2) 0] ([[0, 0], [0, 1]], 1)
      = Inr ([[0, 1], [0, 2]], 2)
   \<and> (2 :: HeatmapType) = Max (set (0 # [1] @ observed_points 2 2 (MkComplex (- 2) (- 2))
        (MkComplex 1 2) [MkComplex (1 / 2) (3 / 2), MkComplex (- 2) 0] [[0, 0], [0, 1]]))
   \<and> GenerateHeatmap [[0, 0], [0, 1]] 2 2 (MkComplex (- 2) (- 2)) (MkComplex 1 2) 3 2 1
        (\<lambda>k. MkComplex (1 / 2) (3 / 2)) = Inr (([[0, 0], [0, 3]], 3), 2)
   \<and> (3 :: HeatmapType) = Max (set (0 # [1] @ GenerateHeatmap_observed [[0, 0], [0, 1]] 2 2
        (MkComplex (- 2) (- 2)) (MkComplex 1 2) 3 2 (\<lambda>k. MkComplex (1 / 2) (3 / 2))))
   \<and> main_generate small_image (\<lambda>k. MkComplex (1 / 2) (3 / 2)) (\<lambda>k. MkComplex (1 / 2) (3 / 2))
        (\<lambda>k. MkComplex (- 2) 0)
      = Inr ([[0, 0], [0, 2]], [[0, 0], [0, 2]], [[0, 2], [0, 0]], 2)
   \<and> main_observed small_image (\<lambda>k. MkComplex (1 / 2) (3 / 2)) (\<lambda>k. MkComplex (1 / 2) (3 / 2))
        (\<lambda>k. MkComplex (- 2) 0) = [1, 2, 1, 2, 1, 2]
   \<and> (2 :: HeatmapType)
     = Max (set (0 # main_observed small_image (\<lambda>k. MkComplex (1 / 2) (3 / 2))
         (\<lambda>k. MkComplex (1 / 2) (3 / 2)) (\<lambda>k. MkComplex (- 2) 0)))"
proof -
  have s: "(1 :: HeatmapType) = Max (set (0 # [1]))" by simp
  note t = global_maximum_is_running_maximum[where m = 1 and seen = "[1]"
      and W = 2 and H = 2 and mn = "MkComplex (- 2) (- 2)" and mx = "MkComplex 1 2"
      and h = "[[0, 0], [0, 1]]" and p = "MkComplex (1 / 2) (3 / 2)"
      and ps = "[MkComplex (1 / 2) (3 / 2), MkComplex (- 2) 0]"
      and N = 3 and nSamples = 2 and rng = "\<lambda>k. MkComplex (1 / 2) (3 / 2)"
      and k = small_image and rngRed = "\<lambda>k. MkComplex (1 / 2) (3 / 2)"
      and rngGreen = "\<lambda>k. MkComplex (1 / 2) (3 / 2)" and rngBlue = "\<lambda>k. MkComplex (- 2) 0"]
  have a: "(2 :: HeatmapType) = Max (set (0 # [1] @ incremented_value 2 2 (MkComplex (- 2) (- 2))
        (MkComplex 1 2) (MkComplex (1 / 2) (3 / 2)) [[0, 0], [0, 1]]))"
    using t[THEN conjunct1, rule_format, OF conjI, OF s one_point_fed] .
  have b: "(2 :: HeatmapType) = Max (set (0 # [1] @ observed_points 2 2 (MkComplex (- 2) (- 2))
        (MkComplex 1 2) [MkComplex (1 / 2) (3 / 2), MkComplex (- 2) 0] [[0, 0], [0, 1]]))"
    using t[THEN conjunct2, THEN conjunct1, rule_format, OF conjI, OF s two_points_fed_later] .
  have c: "(3 :: HeatmapType) = Max (set (0 # [1] @ GenerateHeatmap_observed [[0, 0], [0, 1]] 2 2
        (MkComplex (- 2) (- 2)) (MkComplex 1 2) 3 2 (\<lambda>k. MkComplex (1 / 2) (3 / 2))))"
    using t[THEN conjunct2, THEN conjunct2, THEN conjunct1, rule_format, OF conjI,
        OF s later_pass] .
  have d: "(2 :: HeatmapType)
     = Max (set (0 # main_observed small_image (\<lambda>k. MkComplex (1 / 2) (3 / 2))
         (\<lambda>k. MkComplex (1 / 2) (3 / 2)) (\<lambda>k. MkComplex (- 2) 0)))"
    using t[THEN conjunct2, THEN conjunct2, THEN conjunct2, rule_format, OF small_image_run] .
  show ?thesis
    by (intro conjI)
       (rule s a b c d one_point_fed two_points_fed_later later_pass small_image_run
          small_image_observed)+
qed

end
